theory Spec2Isabelle
  imports Complex_Main "HOL-Library.AList"
begin

section \<open>Restriction-to-flow compiler of the time-space graph\<close>

text \<open>
  The development follows \<open>controller/RestrictionForTimeFrameController.py\<close> and
  \<open>gamma_analysis/integrated_gamma_control.py\<close>. Python integers are \<open>int\<close>.
  A Python float (priority, gamma, k-factor, mean cost) is the real number that the
  double stands for; infinities and NaN are outside the model. Comparison, \<open>max\<close> and
  \<open>round\<close> are exact on doubles; the operations that round their result (the product
  and \<open>np.mean\<close>) are parameters, so nothing is assumed about their rounding. Every
  \<open>raise\<close> that the modelled code can reach is a value of \<open>error\<close>.
\<close>

subsection \<open>Data model\<close>

datatype error = ZeroDivisionError

text \<open>A time-expanded edge tuple \<open>(source, dest, lower_bound, capacity, cost)\<close>.\<close>

type_synonym edge = "int \<times> int \<times> int \<times> int \<times> int"

definition edge_pair :: "edge \<Rightarrow> int \<times> int" where
  "edge_pair e = (case e of (u, v, l, cap, cost) \<Rightarrow> (u, v))"

definition edge_lower :: "edge \<Rightarrow> int" where
  "edge_lower e = (case e of (u, v, l, cap, cost) \<Rightarrow> l)"

definition edge_cost :: "edge \<Rightarrow> int" where
  "edge_cost e = (case e of (u, v, l, cap, cost) \<Rightarrow> cost)"

subsection \<open>Node id arithmetic\<close>

text \<open>
  \<open>_get_node_time\<close> and \<open>_get_node_coordinates\<close>. Python's \<open>//\<close> and \<open>%\<close> on
  integers are floor division and its remainder, as \<open>div\<close> and \<open>mod\<close> on \<open>int\<close>
  are; both raise \<open>ZeroDivisionError\<close> when \<open>M = 0\<close>.
\<close>

definition get_node_time :: "int \<Rightarrow> int \<Rightarrow> error + int" where
  "get_node_time M node_id =
     (if M = 0 then Inl ZeroDivisionError
      else Inr (node_id div M - (if node_id mod M = 0 then 1 else 0)))"

definition get_node_coordinates :: "int \<Rightarrow> int \<Rightarrow> error + int" where
  "get_node_coordinates M node_id =
     (if M = 0 then Inl ZeroDivisionError
      else Inr (if node_id mod M \<noteq> 0 then node_id mod M else M))"

text \<open>The canonical indexer of the specification, written from its words.\<close>

definition spec_time_of :: "int \<Rightarrow> int \<Rightarrow> int" where
  "spec_time_of M node_id = (node_id - 1) div M"

definition spec_spatial_of :: "int \<Rightarrow> int \<Rightarrow> int" where
  "spec_spatial_of M node_id = ((node_id - 1) mod M) + 1"

subsection \<open>Virtual flow\<close>

text \<open>\<open>calculate_virtual_flow\<close>: \<open>max(0, max_flow - U)\<close>.\<close>

definition calculate_virtual_flow :: "int \<Rightarrow> int \<Rightarrow> int" where
  "calculate_virtual_flow max_flow U = max 0 (max_flow - U)"

subsection \<open>Decimal rendering of integers\<close>

text \<open>
  Python's \<open>str\<close> on an integer, used for node labels and for the string keys of the
  solver's flow dictionary.
\<close>

definition digit_char :: "nat \<Rightarrow> char" where
  "digit_char d = ''0123456789'' ! d"

function str_nat :: "nat \<Rightarrow> string" where
  "str_nat n = (if n < 10 then [digit_char n] else str_nat (n div 10) @ [digit_char (n mod 10)])"
  by pat_completeness auto
termination
  by (relation "measure id") auto

declare str_nat.simps [simp del]

definition str_int :: "int \<Rightarrow> string" where
  "str_int i = (if i < 0 then CHR ''-'' # str_nat (nat (- i)) else str_nat (nat i))"

subsection \<open>Nodes, restrictions and the controller state\<close>

text \<open>
  A node object as far as this controller reads or creates it: its id, its label and
  the \<open>is_restriction_node\<close> mark that \<open>RestrictionArtificialNode\<close> sets.
\<close>

record node =
  node_id :: int
  node_label :: "string option"
  is_restriction_node :: bool

definition RestrictionArtificialNode :: "int \<Rightarrow> string \<Rightarrow> node" where
  "RestrictionArtificialNode i lbl =
     \<lparr>node_id = i, node_label = Some lbl, is_restriction_node = True\<rparr>"

text \<open>
  One entry of \<open>self.restrictions\<close>:
  \<open>(restriction_edges, timeframe, U, priority, gamma, k)\<close>. The shape checks of
  \<open>validate_restriction\<close> (two values per timeframe, two nodes per edge) are carried
  by the types; \<open>gamma_config = None\<close> asks for the automatic penalty.
\<close>

record restriction =
  restriction_edges :: "(int \<times> int) list"
  timeframe :: "int \<times> int"
  U_limit :: int
  priority :: real
  gamma_config :: "real option"
  k_val :: real

definition validate_restriction :: "restriction \<Rightarrow> bool" where
  "validate_restriction r =
     (if restriction_edges r = [] \<or> U_limit r < 0 then False
      else if fst (timeframe r) > snd (timeframe r) then False
      else True)"

text \<open>
  The controller together with the collections of the graph processor it mutates
  (\<open>M\<close>, \<open>ts_nodes\<close>, \<open>ts_edges\<close>, \<open>map_nodes\<close>). Dictionaries that are iterated or
  summed keep their insertion order as association lists. The processor's own
  bookkeeping behind \<open>check_and_add_nodes\<close> and \<open>create_set_of_edges\<close>, and its
  mirror list of edge objects, are outside this state; the repository's unit tests
  replace both methods by mocks in the same way.
\<close>

record controller =
  restrictions :: "restriction list"
  min_gamma :: real
  omega_store :: "edge list"
  all_additional_edges :: "edge list"
  all_additional_nodes :: "int set"
  virtual_node_demands :: "(int \<times> int) list"
  gp_M :: int
  ts_nodes :: "node list"
  ts_edges :: "edge list"
  map_nodes :: "int \<rightharpoonup> node"

text \<open>The controller as \<open>__init__\<close> leaves it, over a given graph.\<close>

definition init_controller :: "int \<Rightarrow> node list \<Rightarrow> edge list \<Rightarrow> (int \<rightharpoonup> node) \<Rightarrow> controller" where
  "init_controller M nodes edges nmap =
     \<lparr>restrictions = [], min_gamma = 200, omega_store = [], all_additional_edges = [],
      all_additional_nodes = {}, virtual_node_demands = [], gp_M = M,
      ts_nodes = nodes, ts_edges = edges, map_nodes = nmap\<rparr>"

definition set_restrictions :: "restriction list \<Rightarrow> controller \<Rightarrow> controller" where
  "set_restrictions restrictions_data s =
     s\<lparr>restrictions := filter validate_restriction restrictions_data\<rparr>"

text \<open>\<open>dict.get(key, default)\<close> on an association list.\<close>

definition dict_get :: "('k \<times> 'v) list \<Rightarrow> 'k \<Rightarrow> 'v \<Rightarrow> 'v" where
  "dict_get d k dflt = (case map_of d k of None \<Rightarrow> dflt | Some v \<Rightarrow> v)"

definition get_virtual_node_demand :: "controller \<Rightarrow> int \<Rightarrow> int" where
  "get_virtual_node_demand s n = dict_get (virtual_node_demands s) n 0"

subsection \<open>Omega extraction and cut capacities\<close>

text \<open>
  \<open>identify_restricted_edges\<close>: one pass over \<open>ts_edges\<close>, appending to \<open>omega\<close> the
  edges whose spatial base pair is restricted and whose times intersect the frame.
  The appended tuple carries lower bound \<open>0\<close>.
\<close>

fun identify_loop ::
  "int \<Rightarrow> (int \<times> int) set \<Rightarrow> int \<Rightarrow> int \<Rightarrow> edge list \<Rightarrow> edge list \<Rightarrow> error + edge list" where
  "identify_loop M restriction_set start_time_frame end_time_frame [] omega = Inr omega"
| "identify_loop M restriction_set start_time_frame end_time_frame
     ((source_id, dest_id, l, capacity, cost) # rest) omega =
     (case get_node_time M source_id of Inl e \<Rightarrow> Inl e | Inr t1 \<Rightarrow>
      case get_node_time M dest_id of Inl e \<Rightarrow> Inl e | Inr t2 \<Rightarrow>
      case get_node_coordinates M source_id of Inl e \<Rightarrow> Inl e | Inr s_source \<Rightarrow>
      case get_node_coordinates M dest_id of Inl e \<Rightarrow> Inl e | Inr s_dest \<Rightarrow>
        if (s_source, s_dest) \<in> restriction_set
        then (if t1 < end_time_frame \<and> t2 > start_time_frame
              then identify_loop M restriction_set start_time_frame end_time_frame rest
                     (omega @ [(source_id, dest_id, 0, capacity, cost)])
              else identify_loop M restriction_set start_time_frame end_time_frame rest omega)
        else identify_loop M restriction_set start_time_frame end_time_frame rest omega)"

definition identify_restricted_edges ::
  "int \<Rightarrow> edge list \<Rightarrow> (int \<times> int) list \<Rightarrow> int \<Rightarrow> int \<Rightarrow> error + edge list" where
  "identify_restricted_edges M edges restriction_edges_config start_time_frame end_time_frame =
     identify_loop M (set restriction_edges_config) start_time_frame end_time_frame edges []"

fun identify_restricted_nodes :: "edge list \<Rightarrow> int set" where
  "identify_restricted_nodes [] = {}"
| "identify_restricted_nodes ((source_id, dest_id, l, capacity, cost) # rest) =
     {source_id, dest_id} \<union> identify_restricted_nodes rest"

text \<open>
  The two capacity scans fill a \<open>defaultdict(int)\<close>: \<open>d[k] += capacity\<close> reads \<open>0\<close> for
  a new key and appends it.
\<close>

fun incoming_loop :: "edge list \<Rightarrow> int set \<Rightarrow> (int \<times> int) list \<Rightarrow> (int \<times> int) list" where
  "incoming_loop [] restricted_nodes d = d"
| "incoming_loop ((source_id, dest_id, l, capacity, cost) # rest) restricted_nodes d =
     (if dest_id \<in> restricted_nodes \<and> source_id \<notin> restricted_nodes
      then incoming_loop rest restricted_nodes
             (AList.update dest_id (dict_get d dest_id 0 + capacity) d)
      else incoming_loop rest restricted_nodes d)"

definition calculate_incoming_capacity_for_restricted_nodes ::
  "edge list \<Rightarrow> int set \<Rightarrow> (int \<times> int) list" where
  "calculate_incoming_capacity_for_restricted_nodes TSG restricted_nodes =
     incoming_loop TSG restricted_nodes []"

fun outgoing_loop :: "edge list \<Rightarrow> int set \<Rightarrow> (int \<times> int) list \<Rightarrow> (int \<times> int) list" where
  "outgoing_loop [] restricted_nodes d = d"
| "outgoing_loop ((source_id, dest_id, l, capacity, cost) # rest) restricted_nodes d =
     (if source_id \<in> restricted_nodes \<and> dest_id \<notin> restricted_nodes
      then outgoing_loop rest restricted_nodes
             (AList.update source_id (dict_get d source_id 0 + capacity) d)
      else outgoing_loop rest restricted_nodes d)"

definition calculate_outgoing_capacity_for_restricted_nodes ::
  "edge list \<Rightarrow> int set \<Rightarrow> (int \<times> int) list" where
  "calculate_outgoing_capacity_for_restricted_nodes TSG restricted_nodes =
     outgoing_loop TSG restricted_nodes []"

text \<open>
  \<open>calculate_max_flow\<close> hands an auxiliary graph (the omega edges, \<open>vS \<rightarrow> v\<close> with the
  incoming capacities, \<open>u \<rightarrow> vT\<close> with the outgoing ones) to the external max-flow
  solver. The solver is not part of the repository, so the method is a parameter
  of everything that calls it, as it is a patched method in the repository's tests.
\<close>

type_synonym max_flow_probe = "edge list \<Rightarrow> (int \<times> int) list \<Rightarrow> (int \<times> int) list \<Rightarrow> int"

text \<open>
  What the program takes from outside the repository: the max-flow method above,
  \<open>np.mean\<close> of a list of integer costs, and the product of two doubles. The last two
  round their exact result to a double; how they round is left open.
\<close>

record externals =
  calculate_max_flow :: max_flow_probe
  np_mean :: "int list \<Rightarrow> real"
  float_mul :: "real \<Rightarrow> real \<Rightarrow> real"

subsection \<open>Penalty cost\<close>

text \<open>
  \<open>calculate_default_gamma\<close> reads edge tuples whose cost may be \<open>None\<close>: it averages
  the costs that are not \<open>None\<close> and takes \<open>10\<close> when there is none. An empty \<open>TSG\<close> is
  answered with \<open>min_gamma\<close> before that. The product \<open>k * avg_cost * max(1.0, priority)\<close>
  is evaluated from the left.
\<close>

type_synonym costed_edge = "int \<times> int \<times> int \<times> int \<times> int option"

definition calculate_default_gamma ::
  "externals \<Rightarrow> costed_edge list \<Rightarrow> real \<Rightarrow> real \<Rightarrow> real \<Rightarrow> real" where
  "calculate_default_gamma ext TSG prio k mg =
     (if TSG = [] then mg
      else
        let costs = List.map_filter (\<lambda>(u, v, l, cap, cost). cost) TSG;
            avg_cost = (if costs \<noteq> [] then np_mean ext costs else 10);
            gamma = float_mul ext (float_mul ext k avg_cost) (max 1 prio)
        in max gamma mg)"

text \<open>
  The edge tuples of the graph are typed \<open>int\<close> throughout this development, so each
  carries a cost when it is handed to \<open>calculate_default_gamma\<close>.
\<close>

definition as_costed :: "edge \<Rightarrow> costed_edge" where
  "as_costed e = (case e of (u, v, l, cap, cost) \<Rightarrow> (u, v, l, cap, Some cost))"

text \<open>Python's \<open>int(round(x))\<close>: to the nearest integer, a tie to the even one.\<close>

definition py_round :: "real \<Rightarrow> int" where
  "py_round x =
     (let f = \<lfloor>x\<rfloor>; d = x - of_int f
      in if d < 1 / 2 then f else if 1 / 2 < d then f + 1 else if even f then f else f + 1)"

text \<open>Line 488 of \<open>apply_restriction\<close>: the penalty that the escape edge carries.\<close>

definition resolve_final_gamma :: "externals \<Rightarrow> controller \<Rightarrow> restriction \<Rightarrow> int" where
  "resolve_final_gamma ext s restriction_item =
     py_round (case gamma_config restriction_item of
                 Some g \<Rightarrow> g
               | None \<Rightarrow> calculate_default_gamma ext (map as_costed (ts_edges s))
                           (priority restriction_item) (k_val restriction_item) (min_gamma s))"

subsection \<open>Escape topology\<close>

text \<open>
  \<open>list.index\<close>: the first position of an item. The item is always an entry of
  \<open>self.restrictions\<close> here, so the \<open>ValueError\<close> of a missing item cannot occur.
\<close>

fun list_index :: "'a list \<Rightarrow> 'a \<Rightarrow> nat" where
  "list_index [] x = 0"
| "list_index (y # ys) x = (if y = x then 0 else Suc (list_index ys x))"

text \<open>
  The inner loop of \<open>apply_restriction\<close> over the omega edges of one restriction:
  two intermediate nodes and five edges per omega edge. The pair is the id counter
  \<open>max_node_id_val\<close> and the state.
\<close>

fun omega_edge_loop :: "int \<Rightarrow> int \<Rightarrow> edge list \<Rightarrow> int \<times> controller \<Rightarrow> int \<times> controller" where
  "omega_edge_loop vS_global_id vD_global_id [] cs = cs"
| "omega_edge_loop vS_global_id vD_global_id ((u, v, l_orig, cap_orig, cost_orig) # rest)
     (max_node_id_val, s) =
     (let v_i1_id = max_node_id_val + 1;
          v_i2_id = max_node_id_val + 2;
          v_i1_node = RestrictionArtificialNode v_i1_id
                        (''v_i1_'' @ str_int u @ ''_'' @ str_int v);
          v_i2_node = RestrictionArtificialNode v_i2_id
                        (''v_i2_'' @ str_int u @ ''_'' @ str_int v);
          new_edges_for_this_arc =
            [(u, v_i1_id, l_orig, cap_orig, cost_orig),
             (v_i1_id, v_i2_id, l_orig, cap_orig, 0),
             (v_i2_id, v, l_orig, cap_orig, 0),
             (vS_global_id, v_i1_id, 0, cap_orig, 0),
             (v_i2_id, vD_global_id, 0, cap_orig, 0)]
      in omega_edge_loop vS_global_id vD_global_id rest
           (v_i2_id,
            s\<lparr>all_additional_nodes := all_additional_nodes s \<union> {v_i1_id, v_i2_id},
              ts_nodes := ts_nodes s @ [v_i1_node, v_i2_node],
              map_nodes := (map_nodes s)(v_i1_id \<mapsto> v_i1_node, v_i2_id \<mapsto> v_i2_node),
              all_additional_edges := all_additional_edges s @ new_edges_for_this_arc\<rparr>))"

text \<open>
  Lines 488 to 552: the work done for a restriction whose virtual flow is positive.
\<close>

definition build_escape_topology ::
  "externals \<Rightarrow> restriction \<Rightarrow> edge list \<Rightarrow> int \<Rightarrow> int \<times> controller
     \<Rightarrow> int \<times> controller" where
  "build_escape_topology ext restriction_item omega_for_this_restriction virtual_flow_needed cs =
     (case cs of (max_node_id_val, s) \<Rightarrow>
        let final_gamma = resolve_final_gamma ext s restriction_item;
            res_index = str_int (int (list_index (restrictions s) restriction_item));
            vS_global_id = max_node_id_val + 1;
            vS_global_node = RestrictionArtificialNode vS_global_id (''Global_vS_Res'' @ res_index);
            vD_global_id = max_node_id_val + 2;
            vD_global_node = RestrictionArtificialNode vD_global_id (''Global_vD_Res'' @ res_index);
            s2 = s\<lparr>virtual_node_demands :=
                       AList.update vD_global_id (- virtual_flow_needed)
                         (AList.update vS_global_id virtual_flow_needed (virtual_node_demands s)),
                    all_additional_nodes := all_additional_nodes s \<union> {vS_global_id, vD_global_id},
                    ts_nodes := ts_nodes s @ [vS_global_node, vD_global_node],
                    map_nodes := (map_nodes s)(vS_global_id \<mapsto> vS_global_node,
                                               vD_global_id \<mapsto> vD_global_node)\<rparr>;
            cs3 = omega_edge_loop vS_global_id vD_global_id omega_for_this_restriction
                    (vD_global_id, s2);
            escape_edge = (vS_global_id, vD_global_id, 0, virtual_flow_needed, final_gamma)
        in (fst cs3,
            (snd cs3)\<lparr>all_additional_edges := all_additional_edges (snd cs3) @ [escape_edge]\<rparr>))"

text \<open>
  The body of the loop over \<open>self.restrictions\<close>: an empty omega skips the restriction;
  otherwise omega is stored for the later restore, the max flow is probed, and a
  restriction that needs no virtual flow is skipped.
\<close>

definition process_restriction ::
  "externals \<Rightarrow> restriction \<Rightarrow> int \<times> controller \<Rightarrow> error + (int \<times> controller)" where
  "process_restriction ext restriction_item cs =
     (case cs of (max_node_id_val, s) \<Rightarrow>
        case identify_restricted_edges (gp_M s) (ts_edges s) (restriction_edges restriction_item)
               (fst (timeframe restriction_item)) (snd (timeframe restriction_item)) of
          Inl e \<Rightarrow> Inl e
        | Inr omega_for_this_restriction \<Rightarrow>
            if omega_for_this_restriction = [] then Inr (max_node_id_val, s)
            else
              let s1 = s\<lparr>omega_store := omega_store s @ omega_for_this_restriction\<rparr>;
                  current_restricted_nodes_set =
                    identify_restricted_nodes omega_for_this_restriction;
                  incoming_capacity =
                    calculate_incoming_capacity_for_restricted_nodes (ts_edges s1)
                      current_restricted_nodes_set;
                  outgoing_capacity =
                    calculate_outgoing_capacity_for_restricted_nodes (ts_edges s1)
                      current_restricted_nodes_set;
                  flow_F_through_omega =
                    calculate_max_flow ext omega_for_this_restriction incoming_capacity
                      outgoing_capacity;
                  virtual_flow_needed =
                    calculate_virtual_flow flow_F_through_omega (U_limit restriction_item)
              in if virtual_flow_needed \<le> 0 then Inr (max_node_id_val, s1)
                 else Inr (build_escape_topology ext restriction_item omega_for_this_restriction
                             virtual_flow_needed (max_node_id_val, s1)))"

fun restriction_loop ::
  "externals \<Rightarrow> restriction list \<Rightarrow> int \<times> controller \<Rightarrow> error + (int \<times> controller)" where
  "restriction_loop ext [] cs = Inr cs"
| "restriction_loop ext (restriction_item # rest) cs =
     (case process_restriction ext restriction_item cs of
        Inl e \<Rightarrow> Inl e
      | Inr cs' \<Rightarrow> restriction_loop ext rest cs')"

subsection \<open>Batch commit, cleanup and apply\<close>

text \<open>
  Lines 561 to 587: once per batch, and only when some edge was recorded, every edge
  whose endpoint pair occurs in the stored omega leaves \<open>ts_edges\<close> and the recorded
  edges are appended.
\<close>

definition commit_graph_update :: "controller \<Rightarrow> controller" where
  "commit_graph_update s =
     (if all_additional_edges s \<noteq> [] then
        let edges_to_remove_tuples = set (map edge_pair (omega_store s))
        in s\<lparr>ts_edges := filter (\<lambda>e. edge_pair e \<notin> edges_to_remove_tuples) (ts_edges s)
                           @ all_additional_edges s\<rparr>
      else s)"

text \<open>
  \<open>remove_artificial_artifact\<close>. The edges to re-add are a Python set built from the
  stored omega, kept when any recorded edge exists; the set is turned into a list in
  an order the language does not fix, here the order of \<open>remdups\<close>.
\<close>

definition remove_artificial_artifact :: "controller \<Rightarrow> controller" where
  "remove_artificial_artifact s =
     (let additional_nodes_ids = all_additional_nodes s;
          additional_edges_tuples = all_additional_edges s;
          s1 = (if additional_nodes_ids \<noteq> {} then
                  s\<lparr>ts_nodes := filter (\<lambda>n. node_id n \<notin> additional_nodes_ids) (ts_nodes s),
                    map_nodes := (\<lambda>k. if k \<in> additional_nodes_ids then None else map_nodes s k)\<rparr>
                else s);
          additional_edges_set = set (map edge_pair additional_edges_tuples);
          s2 = (if additional_edges_tuples \<noteq> [] then
                  s1\<lparr>ts_edges := filter (\<lambda>e. edge_pair e \<notin> additional_edges_set) (ts_edges s1)\<rparr>
                else s1);
          original_edges_to_re_add =
            remdups (filter (\<lambda>edge. list_ex (\<lambda>e. edge_pair e \<in> additional_edges_set)
                                       additional_edges_tuples)
                       (omega_store s));
          s3 = (if original_edges_to_re_add \<noteq> [] then
                  s2\<lparr>ts_edges := ts_edges s2 @ original_edges_to_re_add\<rparr>
                else s2)
      in s3\<lparr>all_additional_nodes := {}, all_additional_edges := [], omega_store := [],
            virtual_node_demands := []\<rparr>)"

text \<open>
  \<open>apply_restriction\<close>. \<open>get_restrictions\<close> leaves in \<open>self.restrictions\<close> the entries of
  its data (the configuration cache or the prompt) that pass \<open>validate_restriction\<close>
  and answers whether any is left. \<open>max_id\<close> is the value that the graph processor's
  \<open>get_max_id()\<close> returns at line 453.
\<close>

definition apply_restriction ::
  "externals \<Rightarrow> int \<Rightarrow> restriction list \<Rightarrow> controller \<Rightarrow> error + controller" where
  "apply_restriction ext max_id restrictions_data s =
     (let s0 = set_restrictions restrictions_data s
      in if restrictions s0 = [] then Inr s0
         else
           let s1 = (if all_additional_nodes s0 \<noteq> {} \<or> all_additional_edges s0 \<noteq> []
                     then remove_artificial_artifact s0 else s0)
           in case restriction_loop ext (restrictions s1) (max_id, s1) of
                Inl e \<Rightarrow> Inl e
              | Inr cs \<Rightarrow> Inr (commit_graph_update (snd cs)))"

subsection \<open>Violation detection\<close>

text \<open>
  \<open>analyze_escape_edge_flow\<close> of \<open>GammaControlIntegrator\<close>, from the flow dictionary
  that the min-cost-flow solver returned: a dictionary of dictionaries keyed by the
  node ids as strings. Reading the problem file and running the solver are outside
  the model, which starts with their result; when either fails the method's
  \<open>except\<close> clause answers with an empty list.
\<close>

record escape_edge =
  ee_source :: int
  ee_dest :: int
  ee_cost :: int
  ee_line :: nat

record violation =
  viol_source :: int
  viol_dest :: int
  viol_flow :: int
  viol_gamma_cost :: int
  viol_penalty_cost :: int

type_synonym flow_dict = "string \<rightharpoonup> (string \<rightharpoonup> int)"

definition escape_flow_value :: "flow_dict \<Rightarrow> escape_edge \<Rightarrow> int" where
  "escape_flow_value fd edge =
     (let source_str = str_int (ee_source edge); dest_str = str_int (ee_dest edge)
      in case fd source_str of
           None \<Rightarrow> 0
         | Some sub \<Rightarrow> (case sub dest_str of None \<Rightarrow> 0 | Some f \<Rightarrow> f))"

fun analyze_loop :: "flow_dict \<Rightarrow> escape_edge list \<Rightarrow> violation list \<Rightarrow> violation list" where
  "analyze_loop fd [] violations = violations"
| "analyze_loop fd (edge # rest) violations =
     (let gamma_cost = ee_cost edge; flow_value = escape_flow_value fd edge
      in if flow_value > 0 then
           analyze_loop fd rest
             (violations @ [\<lparr>viol_source = ee_source edge, viol_dest = ee_dest edge,
                             viol_flow = flow_value, viol_gamma_cost = gamma_cost,
                             viol_penalty_cost = flow_value * gamma_cost\<rparr>])
         else analyze_loop fd rest violations)"

definition analyze_escape_edge_flow :: "escape_edge list \<Rightarrow> flow_dict \<Rightarrow> violation list" where
  "analyze_escape_edge_flow escape_edges fd =
     (if escape_edges = [] then [] else analyze_loop fd escape_edges [])"

subsection \<open>Closed forms and invariants used in the proofs\<close>

text \<open>
  None of the following is part of the program. They name what the loops compute, so
  that the lemmas can speak about it: the omega of a restriction as a filter, the
  edges and nodes that the inner loop emits, and the relation between the ledger
  before and after a stretch of the batch.
\<close>

definition zero_lower :: "edge \<Rightarrow> edge" where
  "zero_lower e = (case e of (u, v, l, cap, cost) \<Rightarrow> (u, v, 0, cap, cost))"

definition node_time_val :: "int \<Rightarrow> int \<Rightarrow> int" where
  "node_time_val M i = i div M - (if i mod M = 0 then 1 else 0)"

definition node_coord_val :: "int \<Rightarrow> int \<Rightarrow> int" where
  "node_coord_val M i = (if i mod M \<noteq> 0 then i mod M else M)"

definition in_omega :: "int \<Rightarrow> (int \<times> int) set \<Rightarrow> int \<Rightarrow> int \<Rightarrow> int \<times> int \<Rightarrow> bool" where
  "in_omega M rset st en p =
     ((node_coord_val M (fst p), node_coord_val M (snd p)) \<in> rset
      \<and> node_time_val M (fst p) < en \<and> st < node_time_val M (snd p))"

definition omega_of :: "controller \<Rightarrow> restriction \<Rightarrow> edge list" where
  "omega_of s r =
     map zero_lower
       (filter (\<lambda>e. in_omega (gp_M s) (set (restriction_edges r)) (fst (timeframe r))
                      (snd (timeframe r)) (edge_pair e))
          (ts_edges s))"

definition virtual_flow_of :: "externals \<Rightarrow> controller \<Rightarrow> restriction \<Rightarrow> int" where
  "virtual_flow_of ext s r =
     calculate_virtual_flow
       (calculate_max_flow ext (omega_of s r)
          (calculate_incoming_capacity_for_restricted_nodes (ts_edges s)
             (identify_restricted_nodes (omega_of s r)))
          (calculate_outgoing_capacity_for_restricted_nodes (ts_edges s)
             (identify_restricted_nodes (omega_of s r))))
       (U_limit r)"

fun loop_edges :: "int \<Rightarrow> int \<Rightarrow> int \<Rightarrow> edge list \<Rightarrow> edge list" where
  "loop_edges vS vD c [] = []"
| "loop_edges vS vD c ((u, v, l, cap, cost) # rest) =
     [(u, c + 1, l, cap, cost), (c + 1, c + 2, l, cap, 0), (c + 2, v, l, cap, 0),
      (vS, c + 1, 0, cap, 0), (c + 2, vD, 0, cap, 0)] @ loop_edges vS vD (c + 2) rest"

fun loop_nodes :: "int \<Rightarrow> edge list \<Rightarrow> node list" where
  "loop_nodes c [] = []"
| "loop_nodes c ((u, v, l, cap, cost) # rest) =
     [RestrictionArtificialNode (c + 1) (''v_i1_'' @ str_int u @ ''_'' @ str_int v),
      RestrictionArtificialNode (c + 2) (''v_i2_'' @ str_int u @ ''_'' @ str_int v)]
     @ loop_nodes (c + 2) rest"

text \<open>
  \<open>pair_closed E om\<close>: \<open>om\<close> consists of edges of \<open>E\<close> (with lower bound \<open>0\<close>) and
  holds every edge of \<open>E\<close> whose endpoint pair it mentions. \<open>grows c s c' s'\<close>: from
  counter \<open>c\<close> and state \<open>s\<close> the loop reached \<open>c'\<close> and \<open>s'\<close> by appending nodes with
  the ids \<open>c + 1, \<dots>, c'\<close>, edges that touch such a node, and omega edges, leaving
  the graph's edge list alone.
\<close>

definition pair_closed :: "edge list \<Rightarrow> edge list \<Rightarrow> bool" where
  "pair_closed E om \<longleftrightarrow>
     set om \<subseteq> zero_lower ` set E
     \<and> (\<forall>e\<in>set E. edge_pair e \<in> edge_pair ` set om \<longrightarrow> zero_lower e \<in> set om)"

definition grows :: "int \<Rightarrow> controller \<Rightarrow> int \<Rightarrow> controller \<Rightarrow> bool" where
  "grows c s c' s' \<longleftrightarrow>
     c \<le> c'
     \<and> (\<exists>new. ts_nodes s' = ts_nodes s @ new \<and> map node_id new = [c + 1..c'])
     \<and> all_additional_nodes s' = all_additional_nodes s \<union> {c + 1..c'}
     \<and> (\<exists>newA. all_additional_edges s' = all_additional_edges s @ newA
            \<and> (\<forall>a\<in>set newA. c < fst a \<or> c < fst (snd a)))
     \<and> (\<exists>om. omega_store s' = omega_store s @ om \<and> pair_closed (ts_edges s) om)
     \<and> ts_edges s' = ts_edges s \<and> gp_M s' = gp_M s \<and> min_gamma s' = min_gamma s
     \<and> restrictions s' = restrictions s"

text \<open>
  \<open>demands_balanced\<close>: the demand map is a dictionary (distinct keys) whose values sum
  to zero, and it has entries only while artificial nodes are recorded.
\<close>

definition demands_balanced :: "controller \<Rightarrow> bool" where
  "demands_balanced s \<longleftrightarrow>
     distinct (map fst (virtual_node_demands s))
     \<and> sum_list (map snd (virtual_node_demands s)) = 0
     \<and> (virtual_node_demands s \<noteq> [] \<longrightarrow> all_additional_nodes s \<noteq> {})"

definition demand_inv :: "int \<Rightarrow> controller \<Rightarrow> bool" where
  "demand_inv c s \<longleftrightarrow>
     (\<forall>k\<in>fst ` set (virtual_node_demands s). k \<le> c) \<and> demands_balanced s"

definition mk_violation :: "flow_dict \<Rightarrow> escape_edge \<Rightarrow> violation" where
  "mk_violation fd e =
     \<lparr>viol_source = ee_source e, viol_dest = ee_dest e, viol_flow = escape_flow_value fd e,
      viol_gamma_cost = ee_cost e, viol_penalty_cost = escape_flow_value fd e * ee_cost e\<rparr>"

subsection \<open>A worked batch\<close>

text \<open>
  The three-column grid of the repository's unit tests (\<open>M = 3\<close>, node
  \<open>id = coordinate + 3 * time\<close>), extended by a third column with the waiting edges
  \<open>3 \<rightarrow> 6 \<rightarrow> 9 \<rightarrow> 12\<close>; twelve nodes, so \<open>get_max_id()\<close> is \<open>12\<close>.
  Restriction A limits the corridor \<open>(1, 2)\<close> during \<open>[0, 3]\<close> to five vehicles;
  restriction B limits the corridor \<open>(3, 3)\<close> during \<open>[1, 2]\<close> to none, at penalty
  \<open>200\<close>.
\<close>

definition example_edges :: "edge list" where
  "example_edges =
     [(1, 4, 0, 1, 10), (2, 5, 0, 1, 10), (4, 7, 0, 1, 10), (5, 8, 0, 1, 10),
      (1, 2, 0, 1, 5), (4, 5, 0, 1, 5), (7, 8, 0, 1, 5),
      (3, 6, 0, 1, 10), (6, 9, 0, 1, 10), (9, 12, 0, 1, 10)]"

definition example_nodes :: "node list" where
  "example_nodes =
     map (\<lambda>i. \<lparr>node_id = i, node_label = None, is_restriction_node = False\<rparr>)
       [1, 2, 3, 4, 5, 6, 7, 8, 9, 10, 11, 12]"

definition example_controller :: controller where
  "example_controller = init_controller 3 example_nodes example_edges Map.empty"

definition restriction_A :: restriction where
  "restriction_A = \<lparr>restriction_edges = [(1, 2)], timeframe = (0, 3), U_limit = 5,
     priority = 1, gamma_config = None, k_val = 2\<rparr>"

definition restriction_B :: restriction where
  "restriction_B = \<lparr>restriction_edges = [(3, 3)], timeframe = (1, 2), U_limit = 0,
     priority = 1, gamma_config = Some 200, k_val = 2\<rparr>"

text \<open>
  The values of the max-flow solver on the auxiliary graphs of this batch. For A the
  restricted nodes \<open>4, 5, 7, 8\<close> have no edge leaving them, so nothing reaches the sink
  and the flow is \<open>0\<close>. For B the auxiliary graph is the single path
  \<open>vS \<rightarrow> 6 \<rightarrow> 9 \<rightarrow> vT\<close> with capacity \<open>1\<close> on each edge, so the flow is \<open>1\<close>.
  No other auxiliary graph arises in the examples.
\<close>

definition example_max_flow :: max_flow_probe where
  "example_max_flow omega incoming outgoing =
     (if incoming = [] \<or> outgoing = [] then 0
      else if omega = [(6, 9, 0, 1, 10)] \<and> incoming = [(6, 1)] \<and> outgoing = [(9, 1)] then 1
      else 0)"

text \<open>
  The only gamma that is derived in the examples is that of restriction C below, over
  the ten edge costs of the worked batch (sum \<open>85\<close>) with \<open>k = 25\<close> and priority \<open>1\<close>. There
  every double operation is exact: the mean is \<open>85 / 10 = 8.5\<close>, and \<open>25 * 8.5 = 212.5\<close>
  and \<open>212.5 * 1\<close> are doubles. So the exact quotient and the exact product are the
  values of \<open>np.mean\<close> and of the double product on the numbers of the examples.
\<close>

definition example_externals :: externals where
  "example_externals =
     \<lparr>calculate_max_flow = example_max_flow,
      np_mean = (\<lambda>costs. real_of_int (sum_list costs) / real (length costs)),
      float_mul = (\<lambda>x y. x * y)\<rparr>"

text \<open>
  Restriction C is restriction B with gamma left to be derived and the k-factor \<open>25\<close>.
\<close>

definition restriction_C :: restriction where
  "restriction_C = \<lparr>restriction_edges = [(3, 3)], timeframe = (1, 2), U_limit = 0,
     priority = 1, gamma_config = None, k_val = 25\<rparr>"

section \<open>Theorems\<close>

lemmas example_defs = example_controller_def example_edges_def example_nodes_def
  restriction_A_def restriction_B_def restriction_C_def example_max_flow_def
  example_externals_def init_controller_def

lemmas eval_defs = apply_restriction_def set_restrictions_def validate_restriction_def
  process_restriction_def identify_restricted_edges_def get_node_time_def
  get_node_coordinates_def calculate_incoming_capacity_for_restricted_nodes_def
  calculate_outgoing_capacity_for_restricted_nodes_def dict_get_def
  calculate_virtual_flow_def build_escape_topology_def resolve_final_gamma_def py_round_def
  commit_graph_update_def remove_artificial_artifact_def edge_pair_def
  RestrictionArtificialNode_def Let_def

subsection \<open>Node id arithmetic\<close>

lemma div_shift_zero_rem:
  fixes i M :: int
  assumes "1 \<le> M" "i mod M = 0"
  shows "(i - 1) div M = i div M - 1" and "(i - 1) mod M = M - 1"
proof -
  have i: "i = M * (i div M)" using assms(2) by (simp add: mod_eq_0_iff_dvd)
  have eq: "i - 1 = M * (i div M - 1) + (M - 1)"
    using i by (simp add: algebra_simps)
  have bounds: "0 \<le> M - 1" "M - 1 < M" using assms(1) by simp_all
  show "(i - 1) div M = i div M - 1"
    by (rule int_div_pos_eq [OF eq bounds])
  show "(i - 1) mod M = M - 1"
    by (rule int_mod_pos_eq [OF eq bounds])
qed

lemma div_shift_pos_rem:
  fixes i M :: int
  assumes "1 \<le> M" "i mod M \<noteq> 0"
  shows "(i - 1) div M = i div M" and "(i - 1) mod M = i mod M - 1"
proof -
  have "0 \<le> i mod M" "i mod M < M" using assms(1) by simp_all
  with assms(2) have bounds: "0 \<le> i mod M - 1" "i mod M - 1 < M" by simp_all
  have eq: "i - 1 = M * (i div M) + (i mod M - 1)"
    by (simp add: algebra_simps)
  show "(i - 1) div M = i div M"
    by (rule int_div_pos_eq [OF eq bounds])
  show "(i - 1) mod M = i mod M - 1"
    by (rule int_mod_pos_eq [OF eq bounds])
qed

lemma indexer_vals:
  assumes "1 \<le> M" "1 \<le> i"
  shows "node_time_val M i = spec_time_of M i" "node_coord_val M i = spec_spatial_of M i"
proof -
  show "node_time_val M i = spec_time_of M i"
    using div_shift_zero_rem(1) [OF assms(1), of i] div_shift_pos_rem(1) [OF assms(1), of i]
    by (simp add: node_time_val_def spec_time_of_def)
  show "node_coord_val M i = spec_spatial_of M i"
    using div_shift_zero_rem(2) [OF assms(1), of i] div_shift_pos_rem(2) [OF assms(1), of i]
    by (simp add: node_coord_val_def spec_spatial_of_def)
qed

text \<open>
  Claim C9. For every node id \<open>\<ge> 1\<close> and spatial-node count \<open>M \<ge> 1\<close>, the time helper
  of the implementation (\<open>id div M\<close>, minus one when \<open>id mod M = 0\<close>) returns the canonical
  \<open>(id - 1) div M\<close>, and its coordinate helper (\<open>id mod M\<close>, or \<open>M\<close> when the remainder
  is zero) returns the canonical \<open>((id - 1) mod M) + 1\<close>.
\<close>

theorem indexer_refines_canonical:
  assumes "1 \<le> i" and "1 \<le> M"
  shows "get_node_time M i = Inr (spec_time_of M i)
       \<and> get_node_coordinates M i = Inr (spec_spatial_of M i)"
proof (cases "i mod M = 0")
  case True
  with assms(2) div_shift_zero_rem [of M i] show ?thesis
    by (simp add: get_node_time_def get_node_coordinates_def spec_time_of_def
        spec_spatial_of_def)
next
  case False
  with assms(2) div_shift_pos_rem [of M i] show ?thesis
    by (simp add: get_node_time_def get_node_coordinates_def spec_time_of_def
        spec_spatial_of_def)
qed

theorem indexer_refines_canonical_witness:
  "(1::int) \<le> 6 \<and> (1::int) \<le> 3
   \<and> get_node_time 3 6 = Inr (spec_time_of 3 6) \<and> spec_time_of 3 6 = 1
   \<and> get_node_coordinates 3 6 = Inr (spec_spatial_of 3 6) \<and> spec_spatial_of 3 6 = 3"
  using indexer_refines_canonical [of 6 3]
  by (simp add: spec_time_of_def spec_spatial_of_def)

subsection \<open>Virtual flow\<close>

text \<open>
  Claim C7. For every max-flow value \<open>F\<close> and limit \<open>U\<close>, the computed virtual flow is
  \<open>max(0, F - U)\<close>: the excess \<open>F - U\<close> when \<open>F\<close> exceeds \<open>U\<close> and zero otherwise; in
  particular \<open>virtual_flow(5, 3) = 2\<close>, \<open>virtual_flow(3, 5) = 0\<close> and
  \<open>virtual_flow(10, 10) = 0\<close>.
\<close>

theorem virtual_flow_arithmetic:
  "calculate_virtual_flow F U = (if U < F then F - U else 0)
   \<and> 0 \<le> calculate_virtual_flow F U
   \<and> calculate_virtual_flow 5 3 = 2
   \<and> calculate_virtual_flow 3 5 = 0
   \<and> calculate_virtual_flow 10 10 = 0"
  by (simp add: calculate_virtual_flow_def)

subsection \<open>Omega extraction\<close>

lemma identify_loop_closed:
  "M \<noteq> 0 \<Longrightarrow>
   identify_loop M rset st en es acc =
     Inr (acc @ map zero_lower (filter (\<lambda>e. in_omega M rset st en (edge_pair e)) es))"
proof (induction es arbitrary: acc)
  case Nil
  then show ?case by simp
next
  case (Cons e es)
  obtain u v l cap cost where e: "e = (u, v, l, cap, cost)" by (cases e)
  show ?case
    using Cons.prems Cons.IH
    by (simp add: e get_node_time_def get_node_coordinates_def in_omega_def edge_pair_def
        zero_lower_def node_time_val_def node_coord_val_def)
qed

lemma identify_restricted_edges_closed:
  "gp_M s \<noteq> 0 \<Longrightarrow>
   identify_restricted_edges (gp_M s) (ts_edges s) (restriction_edges r)
     (fst (timeframe r)) (snd (timeframe r)) = Inr (omega_of s r)"
  by (simp add: identify_restricted_edges_def identify_loop_closed omega_of_def)

lemma identify_loop_lower:
  "identify_loop M rset st en es acc = Inr om \<Longrightarrow> \<forall>e\<in>set acc. edge_lower e = 0
   \<Longrightarrow> \<forall>e\<in>set om. edge_lower e = 0"
proof (induction es arbitrary: acc)
  case Nil
  then show ?case by simp
next
  case (Cons e es)
  obtain u v l cap cost where e: "e = (u, v, l, cap, cost)" by (cases e)
  from Cons.prems(1) consider
      "identify_loop M rset st en es (acc @ [(u, v, 0, cap, cost)]) = Inr om"
    | "identify_loop M rset st en es acc = Inr om"
    unfolding e by (auto split: sum.splits if_splits)
  then show ?case
  proof cases
    case 1
    have "\<forall>x\<in>set (acc @ [(u, v, 0, cap, cost)]). edge_lower x = 0"
      using Cons.prems(2) by (simp add: edge_lower_def)
    from Cons.IH [OF 1 this] show ?thesis .
  next
    case 2
    from Cons.IH [OF 2 Cons.prems(2)] show ?thesis .
  qed
qed

lemma identify_restricted_edges_lower:
  "identify_restricted_edges M es cfg st en = Inr om \<Longrightarrow> e \<in> set om \<Longrightarrow> edge_lower e = 0"
  unfolding identify_restricted_edges_def using identify_loop_lower [of M _ st en es "[]" om]
  by simp

text \<open>
  Claim C4. Omega extraction keeps an edge exactly when its spatial base pair is in the
  restriction's edge set and \<open>time_of(source) < end\<close> and \<open>time_of(dest) > start\<close>, in
  the order of the edge list and with lower bound \<open>0\<close>; stated with the canonical
  \<open>time_of\<close> and \<open>spatial_of\<close> for \<open>M \<ge> 1\<close> and node ids \<open>\<ge> 1\<close>. In particular, for
  \<open>M = 3\<close> and the seven edges of the unit tests, the restriction on \<open>(1, 2)\<close> with
  timeframe \<open>[0, 3]\<close> yields exactly \<open>(4, 5, 0, 1, 5)\<close> and \<open>(7, 8, 0, 1, 5)\<close>; the edge
  \<open>(1, 2, 0, 1, 5)\<close> at time \<open>0\<close> is left out.
\<close>

theorem omega_extraction_rule:
  assumes M: "1 \<le> M" and ids: "\<forall>e\<in>set edges. 1 \<le> fst e \<and> 1 \<le> fst (snd e)"
  shows "identify_restricted_edges M edges cfg st en =
      Inr (map (\<lambda>(u, v, l, cap, cost). (u, v, 0, cap, cost))
             (filter (\<lambda>(u, v, l, cap, cost).
                        (spec_spatial_of M u, spec_spatial_of M v) \<in> set cfg
                        \<and> spec_time_of M u < en \<and> st < spec_time_of M v)
                edges))
    \<and> identify_restricted_edges 3
        [(1, 4, 0, 1, 10), (2, 5, 0, 1, 10), (4, 7, 0, 1, 10), (5, 8, 0, 1, 10),
         (1, 2, 0, 1, 5), (4, 5, 0, 1, 5), (7, 8, 0, 1, 5)] [(1, 2)] 0 3
      = Inr [(4, 5, 0, 1, 5), (7, 8, 0, 1, 5)]"
proof -
  have M0: "M \<noteq> 0" using M by simp
  have f: "filter (\<lambda>e. in_omega M (set cfg) st en (edge_pair e)) edges =
      filter (\<lambda>(u, v, l, cap, cost).
                (spec_spatial_of M u, spec_spatial_of M v) \<in> set cfg
                \<and> spec_time_of M u < en \<and> st < spec_time_of M v) edges"
  proof (rule filter_cong [OF refl])
    fix e assume e: "e \<in> set edges"
    obtain u v l cap cost where eq: "e = (u, v, l, cap, cost)" by (cases e)
    from ids e eq have "1 \<le> u" "1 \<le> v" by auto
    then show "in_omega M (set cfg) st en (edge_pair e) =
        (case e of (u, v, l, cap, cost) \<Rightarrow>
           (spec_spatial_of M u, spec_spatial_of M v) \<in> set cfg
           \<and> spec_time_of M u < en \<and> st < spec_time_of M v)"
      by (simp add: eq in_omega_def edge_pair_def indexer_vals [OF M])
  qed
  have z: "zero_lower = (\<lambda>(u, v, l, cap, cost). (u, v, 0, cap, cost))"
    by (auto simp: zero_lower_def fun_eq_iff)
  have 1: "identify_restricted_edges M edges cfg st en =
      Inr (map (\<lambda>(u, v, l, cap, cost). (u, v, 0, cap, cost))
             (filter (\<lambda>(u, v, l, cap, cost).
                        (spec_spatial_of M u, spec_spatial_of M v) \<in> set cfg
                        \<and> spec_time_of M u < en \<and> st < spec_time_of M v)
                edges))"
    unfolding identify_restricted_edges_def identify_loop_closed [OF M0] f z by simp
  have 2: "identify_restricted_edges 3
        [(1, 4, 0, 1, 10), (2, 5, 0, 1, 10), (4, 7, 0, 1, 10), (5, 8, 0, 1, 10),
         (1, 2, 0, 1, 5), (4, 5, 0, 1, 5), (7, 8, 0, 1, 5)] [(1, 2)] 0 3
      = Inr [(4, 5, 0, 1, 5), (7, 8, 0, 1, 5)]"
    by (simp add: identify_restricted_edges_def get_node_time_def get_node_coordinates_def)
  from 1 2 show ?thesis by (rule conjI)
qed

theorem omega_extraction_rule_witness:
  "(1::int) \<le> 3
   \<and> list_all (\<lambda>e. 1 \<le> fst e \<and> 1 \<le> fst (snd e)) example_edges
   \<and> identify_restricted_edges 3 example_edges [(3, 3)] 1 2 = Inr [(6, 9, 0, 1, 10)]"
  using omega_extraction_rule [of 3 example_edges "[(3, 3)]" 1 2]
  by (simp add: example_edges_def spec_time_of_def spec_spatial_of_def)

subsection \<open>The inner loop over omega\<close>

lemma omega_edge_loop_counter:
  "fst (omega_edge_loop vS vD es (c, s)) = c + 2 * int (length es)"
  by (induction es arbitrary: c s) (auto simp: Let_def)

lemma omega_edge_loop_edges:
  "all_additional_edges (snd (omega_edge_loop vS vD es (c, s))) =
     all_additional_edges s @ loop_edges vS vD c es"
  by (induction es arbitrary: c s) (auto simp: Let_def)

lemma omega_edge_loop_nodes:
  "ts_nodes (snd (omega_edge_loop vS vD es (c, s))) = ts_nodes s @ loop_nodes c es"
  by (induction es arbitrary: c s) (auto simp: Let_def)

lemma upto_two_more:
  fixes c :: int
  assumes "0 \<le> n"
  shows "[c + 1 .. c + 2 + n] = (c + 1) # (c + 2) # [c + 3 .. c + 2 + n]"
proof -
  have "[c + 1 .. c + 2 + n] = (c + 1) # [c + 1 + 1 .. c + 2 + n]"
    using assms by (subst upto_rec1) simp_all
  also have "[c + 1 + 1 .. c + 2 + n] = (c + 1 + 1) # [c + 1 + 1 + 1 .. c + 2 + n]"
    using assms by (subst upto_rec1) simp_all
  finally show ?thesis by (simp add: add.commute add.left_commute)
qed

lemma loop_nodes_ids:
  "map node_id (loop_nodes c es) = [c + 1 .. c + 2 * int (length es)]"
proof (induction es arbitrary: c)
  case Nil
  show ?case by simp
next
  case (Cons e es)
  obtain u v l cap cost where e: "e = (u, v, l, cap, cost)" by (cases e)
  have "map node_id (loop_nodes c (e # es)) = (c + 1) # (c + 2) # [c + 2 + 1 .. c + 2 + 2 * int (length es)]"
    unfolding e by (simp add: Cons.IH RestrictionArtificialNode_def)
  also have "\<dots> = [c + 1 .. c + 2 + 2 * int (length es)]"
    using upto_two_more [of "2 * int (length es)" c] by (simp add: add.commute add.left_commute)
  finally show ?case by (simp add: algebra_simps)
qed

lemma omega_edge_loop_ids:
  "all_additional_nodes (snd (omega_edge_loop vS vD es (c, s))) =
     all_additional_nodes s \<union> {c + 1 .. c + 2 * int (length es)}"
proof (induction es arbitrary: c s)
  case Nil
  show ?case by simp
next
  case (Cons e es)
  obtain u v l cap cost where e: "e = (u, v, l, cap, cost)" by (cases e)
  show ?case
    unfolding e by (simp add: Cons.IH Let_def) auto
qed

lemma omega_edge_loop_frame:
  "omega_store (snd (omega_edge_loop vS vD es (c, s))) = omega_store s"
  "virtual_node_demands (snd (omega_edge_loop vS vD es (c, s))) = virtual_node_demands s"
  "ts_edges (snd (omega_edge_loop vS vD es (c, s))) = ts_edges s"
  "gp_M (snd (omega_edge_loop vS vD es (c, s))) = gp_M s"
  "min_gamma (snd (omega_edge_loop vS vD es (c, s))) = min_gamma s"
  "restrictions (snd (omega_edge_loop vS vD es (c, s))) = restrictions s"
  by (induction es arbitrary: c s; auto simp: Let_def)+

lemma loop_edges_length: "length (loop_edges vS vD c es) = 5 * length es"
  by (induction es arbitrary: c) auto

lemma loop_edges_block:
  "i < length es \<Longrightarrow>
   take 5 (drop (5 * i) (loop_edges vS vD c es)) =
     (case es ! i of (u, v, l, cap, cost) \<Rightarrow>
        [(u, c + 1 + 2 * int i, l, cap, cost),
         (c + 1 + 2 * int i, c + 2 + 2 * int i, l, cap, 0),
         (c + 2 + 2 * int i, v, l, cap, 0),
         (vS, c + 1 + 2 * int i, 0, cap, 0),
         (c + 2 + 2 * int i, vD, 0, cap, 0)])"
proof (induction es arbitrary: i c)
  case Nil
  then show ?case by simp
next
  case (Cons e es)
  obtain u v l cap cost where e: "e = (u, v, l, cap, cost)" by (cases e)
  show ?case
  proof (cases i)
    case 0
    then show ?thesis unfolding e by simp
  next
    case (Suc j)
    with Cons.prems have j: "j < length es" by simp
    have "drop (5 * i) (loop_edges vS vD c (e # es))
        = drop (5 * j) (drop 5 (loop_edges vS vD c (e # es)))"
      unfolding Suc by (simp add: add.commute)
    also have "drop 5 (loop_edges vS vD c (e # es)) = loop_edges vS vD (c + 2) es"
      unfolding e by simp
    finally have "take 5 (drop (5 * i) (loop_edges vS vD c (e # es)))
        = take 5 (drop (5 * j) (loop_edges vS vD (c + 2) es))"
      by simp
    also note Cons.IH [OF j, of "c + 2"]
    finally show ?thesis unfolding Suc by (simp add: algebra_simps)
  qed
qed

lemma loop_edges_cost:
  "j < 5 * length es \<Longrightarrow> j mod 5 \<noteq> 0 \<Longrightarrow> edge_cost (loop_edges vS vD c es ! j) = 0"
proof (induction es arbitrary: j c)
  case Nil
  then show ?case by simp
next
  case (Cons e es)
  obtain u v l cap cost where e: "e = (u, v, l, cap, cost)" by (cases e)
  let ?five = "[(u, c + 1, l, cap, cost), (c + 1, c + 2, l, cap, 0), (c + 2, v, l, cap, 0),
      (vS, c + 1, 0, cap, 0), (c + 2, vD, 0, cap, 0)]"
  show ?case
  proof (cases "j < 5")
    case True
    with Cons.prems(2) have "j = 1 \<or> j = 2 \<or> j = 3 \<or> j = 4" by auto
    then show ?thesis unfolding e by (auto simp: edge_cost_def)
  next
    case False
    then have j: "j - 5 < 5 * length es" "(j - 5) mod 5 \<noteq> 0"
      using Cons.prems le_mod_geq [of 5 j] by simp_all
    have idx: "length ?five + (j - 5) = j" using False by simp
    have "loop_edges vS vD c (e # es) ! j = (?five @ loop_edges vS vD (c + 2) es) ! j"
      unfolding e by simp
    also have "\<dots> = (?five @ loop_edges vS vD (c + 2) es) ! (length ?five + (j - 5))"
      by (simp only: idx)
    also have "\<dots> = loop_edges vS vD (c + 2) es ! (j - 5)"
      by (rule nth_append_length_plus)
    finally show ?thesis using Cons.IH [OF j] by simp
  qed
qed

lemma loop_edges_fresh:
  "a \<in> set (loop_edges vS vD c es) \<Longrightarrow> c < fst a \<or> c < fst (snd a)"
proof (induction es arbitrary: c)
  case Nil
  then show ?case by simp
next
  case (Cons e es)
  obtain u v l cap cost where e: "e = (u, v, l, cap, cost)" by (cases e)
  from Cons.prems consider
      "a \<in> {(u, c + 1, l, cap, cost), (c + 1, c + 2, l, cap, 0), (c + 2, v, l, cap, 0),
             (vS, c + 1, 0, cap, 0), (c + 2, vD, 0, cap, 0)}"
    | "a \<in> set (loop_edges vS vD (c + 2) es)"
    unfolding e by auto
  then show ?case
  proof cases
    case 1
    then show ?thesis by auto
  next
    case 2
    from Cons.IH [OF 2] show ?thesis by auto
  qed
qed

subsection \<open>One restriction\<close>

lemma omega_of_store [simp]:
  "omega_of (s\<lparr>omega_store := x\<rparr>) r = omega_of s r"
  by (simp add: omega_of_def)

lemma resolve_final_gamma_store [simp]:
  "resolve_final_gamma ext (s\<lparr>omega_store := x\<rparr>) r = resolve_final_gamma ext s r"
  by (simp add: resolve_final_gamma_def split: option.split)

lemma process_restriction_closed:
  assumes "gp_M s \<noteq> 0"
  shows "process_restriction ext r (c, s) =
     (if omega_of s r = [] then Inr (c, s)
      else if virtual_flow_of ext s r \<le> 0
        then Inr (c, s\<lparr>omega_store := omega_store s @ omega_of s r\<rparr>)
        else Inr (build_escape_topology ext r (omega_of s r) (virtual_flow_of ext s r)
                    (c, s\<lparr>omega_store := omega_store s @ omega_of s r\<rparr>)))"
  using assms
  by (simp add: process_restriction_def identify_restricted_edges_closed Let_def
      virtual_flow_of_def)

lemma build_counter:
  "fst (build_escape_topology ext r om vf (c, s)) = c + 2 + 2 * int (length om)"
  by (simp add: build_escape_topology_def Let_def omega_edge_loop_counter)

lemma build_edges:
  "all_additional_edges (snd (build_escape_topology ext r om vf (c, s))) =
     all_additional_edges s @ loop_edges (c + 1) (c + 2) (c + 2) om
       @ [(c + 1, c + 2, 0, vf, resolve_final_gamma ext s r)]"
  by (simp add: build_escape_topology_def Let_def omega_edge_loop_edges)

lemma build_nodes:
  "ts_nodes (snd (build_escape_topology ext r om vf (c, s))) =
     ts_nodes s
     @ [RestrictionArtificialNode (c + 1)
          (''Global_vS_Res'' @ str_int (int (list_index (restrictions s) r))),
        RestrictionArtificialNode (c + 2)
          (''Global_vD_Res'' @ str_int (int (list_index (restrictions s) r)))]
     @ loop_nodes (c + 2) om"
  by (simp add: build_escape_topology_def Let_def omega_edge_loop_nodes)

lemma build_ids:
  "all_additional_nodes (snd (build_escape_topology ext r om vf (c, s))) =
     all_additional_nodes s \<union> {c + 1 .. c + 2 + 2 * int (length om)}"
  by (simp add: build_escape_topology_def Let_def omega_edge_loop_ids) auto

lemma build_demands:
  "virtual_node_demands (snd (build_escape_topology ext r om vf (c, s))) =
     AList.update (c + 2) (- vf) (AList.update (c + 1) vf (virtual_node_demands s))"
  by (simp add: build_escape_topology_def Let_def omega_edge_loop_frame)

lemma build_frame:
  "omega_store (snd (build_escape_topology ext r om vf (c, s))) = omega_store s"
  "ts_edges (snd (build_escape_topology ext r om vf (c, s))) = ts_edges s"
  "gp_M (snd (build_escape_topology ext r om vf (c, s))) = gp_M s"
  "min_gamma (snd (build_escape_topology ext r om vf (c, s))) = min_gamma s"
  "restrictions (snd (build_escape_topology ext r om vf (c, s))) = restrictions s"
  by (simp_all add: build_escape_topology_def Let_def omega_edge_loop_frame)

text \<open>
  Claim C3. A restriction processed with virtual flow \<open>> 0\<close> advances the id counter
  \<open>c\<close> by \<open>2 + 2 * |omega|\<close> and records exactly the ids \<open>c + 1, \<dots>, c + 2 + 2 * |omega|\<close>:
  \<open>vS = c + 1\<close>, \<open>vD = c + 2\<close>, and for the \<open>i\<close>-th omega edge \<open>(u, v, 0, cap, cost)\<close> the
  pair \<open>v_i1 = c + 3 + 2i\<close>, \<open>v_i2 = c + 4 + 2i\<close>. It records \<open>5 * |omega| + 1\<close> edges: for
  the \<open>i\<close>-th omega edge the five edges \<open>(u, v_i1, 0, cap, cost)\<close>, \<open>(v_i1, v_i2, 0, cap, 0)\<close>,
  \<open>(v_i2, v, 0, cap, 0)\<close>, \<open>(vS, v_i1, 0, cap, 0)\<close>, \<open>(v_i2, vD, 0, cap, 0)\<close>, and last the
  escape edge \<open>(vS, vD, 0, virtual_flow, gamma)\<close>. Apart from the escape edge and the
  first edge of each five, every recorded edge has cost \<open>0\<close>.
\<close>

theorem escape_topology_shape:
  assumes om: "identify_restricted_edges (gp_M s) (ts_edges s) (restriction_edges r)
                 (fst (timeframe r)) (snd (timeframe r)) = Inr omega"
    and ne: "omega \<noteq> []"
    and vf: "vf = calculate_virtual_flow
                    (calculate_max_flow ext omega
                       (calculate_incoming_capacity_for_restricted_nodes (ts_edges s)
                          (identify_restricted_nodes omega))
                       (calculate_outgoing_capacity_for_restricted_nodes (ts_edges s)
                          (identify_restricted_nodes omega)))
                    (U_limit r)"
    and pos: "0 < vf"
  shows "\<exists>s' new.
      process_restriction ext r (c, s) = Inr (c + 2 + 2 * int (length omega), s')
    \<and> all_additional_nodes s' = all_additional_nodes s \<union> {c + 1..c + 2 + 2 * int (length omega)}
    \<and> all_additional_edges s' = all_additional_edges s @ new
    \<and> length new = 5 * length omega + 1
    \<and> new ! (5 * length omega) = (c + 1, c + 2, 0, vf, resolve_final_gamma ext s r)
    \<and> (\<forall>i<length omega. \<exists>u v cap cost.
          omega ! i = (u, v, 0, cap, cost)
        \<and> take 5 (drop (5 * i) new) =
            [(u, c + 3 + 2 * int i, 0, cap, cost),
             (c + 3 + 2 * int i, c + 4 + 2 * int i, 0, cap, 0),
             (c + 4 + 2 * int i, v, 0, cap, 0),
             (c + 1, c + 3 + 2 * int i, 0, cap, 0),
             (c + 4 + 2 * int i, c + 2, 0, cap, 0)])
    \<and> (\<forall>j<5 * length omega. j mod 5 \<noteq> 0 \<longrightarrow> edge_cost (new ! j) = 0)"
proof -
  let ?s1 = "s\<lparr>omega_store := omega_store s @ omega\<rparr>"
  let ?b = "build_escape_topology ext r omega vf (c, ?s1)"
  let ?loop = "loop_edges (c + 1) (c + 2) (c + 2) omega"
  let ?new = "?loop @ [(c + 1, c + 2, 0, vf, resolve_final_gamma ext s r)]"
  have p: "process_restriction ext r (c, s) = Inr ?b"
    using om ne vf pos by (simp add: process_restriction_def Let_def)
  have 1: "process_restriction ext r (c, s) = Inr (c + 2 + 2 * int (length omega), snd ?b)"
    using p build_counter [of ext r omega vf c ?s1] by (metis prod.collapse)
  have 2: "all_additional_nodes (snd ?b)
      = all_additional_nodes s \<union> {c + 1..c + 2 + 2 * int (length omega)}"
    by (simp add: build_ids)
  have 3: "all_additional_edges (snd ?b) = all_additional_edges s @ ?new"
    by (simp add: build_edges)
  have 4: "length ?new = 5 * length omega + 1"
    by (simp add: loop_edges_length)
  have 5: "?new ! (5 * length omega) = (c + 1, c + 2, 0, vf, resolve_final_gamma ext s r)"
    using nth_append_length [of ?loop] by (simp add: loop_edges_length)
  have 6: "\<exists>u v cap cost.
          omega ! i = (u, v, 0, cap, cost)
        \<and> take 5 (drop (5 * i) ?new) =
            [(u, c + 3 + 2 * int i, 0, cap, cost),
             (c + 3 + 2 * int i, c + 4 + 2 * int i, 0, cap, 0),
             (c + 4 + 2 * int i, v, 0, cap, 0),
             (c + 1, c + 3 + 2 * int i, 0, cap, 0),
             (c + 4 + 2 * int i, c + 2, 0, cap, 0)]" if i: "i < length omega" for i
  proof -
    obtain u v l cap cost where e: "omega ! i = (u, v, l, cap, cost)" by (cases "omega ! i")
    have "omega ! i \<in> set omega" using i by simp
    from identify_restricted_edges_lower [OF om this] have l: "l = 0"
      by (simp add: e edge_lower_def)
    have le: "5 * i + 5 \<le> length ?loop" using i by (simp add: loop_edges_length)
    then have "take 5 (drop (5 * i) ?new) = take 5 (drop (5 * i) ?loop)" by simp
    also note loop_edges_block [OF i, of "c + 1" "c + 2" "c + 2"]
    finally show ?thesis using e l by (simp add: algebra_simps)
  qed
  have 7: "edge_cost (?new ! j) = 0" if "j < 5 * length omega" "j mod 5 \<noteq> 0" for j
    using that loop_edges_cost [of j omega "c + 1" "c + 2" "c + 2"]
    by (simp add: nth_append loop_edges_length)
  from 1 2 3 4 5 6 7 show ?thesis by blast
qed

theorem escape_topology_shape_witness:
  "identify_restricted_edges (gp_M example_controller) (ts_edges example_controller)
     (restriction_edges restriction_B) (fst (timeframe restriction_B))
     (snd (timeframe restriction_B)) = Inr [(6, 9, 0, 1, 10)]
   \<and> (\<exists>s' new.
        process_restriction example_externals restriction_B (12, example_controller) = Inr (16, s')
      \<and> all_additional_nodes s' = {13..16}
      \<and> all_additional_edges s' = new
      \<and> length new = 6
      \<and> new ! 5 = (13, 14, 0, 1, 200)
      \<and> take 5 new = [(6, 15, 0, 1, 10), (15, 16, 0, 1, 0), (16, 9, 0, 1, 0),
                       (13, 15, 0, 1, 0), (16, 14, 0, 1, 0)])"
proof -
  have om: "identify_restricted_edges (gp_M example_controller) (ts_edges example_controller)
     (restriction_edges restriction_B) (fst (timeframe restriction_B))
     (snd (timeframe restriction_B)) = Inr [(6, 9, 0, 1, 10)]"
    by (simp add: example_defs eval_defs)
  have vf: "(1::int) = calculate_virtual_flow
                    (calculate_max_flow example_externals [(6, 9, 0, 1, 10)]
                       (calculate_incoming_capacity_for_restricted_nodes (ts_edges example_controller)
                          (identify_restricted_nodes [(6, 9, 0, 1, 10)]))
                       (calculate_outgoing_capacity_for_restricted_nodes (ts_edges example_controller)
                          (identify_restricted_nodes [(6, 9, 0, 1, 10)])))
                    (U_limit restriction_B)"
    by (simp add: example_defs eval_defs)
  have g: "resolve_final_gamma example_externals example_controller restriction_B = 200"
    by (simp add: example_defs eval_defs)
  have ne: "[(6, 9, 0, 1, 10)] \<noteq> ([] :: edge list)" by simp
  from escape_topology_shape [where s = example_controller and r = restriction_B
      and omega = "[(6, 9, 0, 1, 10)]" and vf = 1 and ext = example_externals and c = 12,
      OF om ne vf] g om
  show ?thesis
    by (simp add: example_controller_def init_controller_def) blast
qed

subsection \<open>Growth of the ledger along the batch\<close>

lemma zero_lower_pair [simp]: "edge_pair (zero_lower e) = edge_pair e"
  by (cases e) (simp add: zero_lower_def edge_pair_def)

lemma pair_closed_Nil: "pair_closed E []"
  by (simp add: pair_closed_def)

lemma pair_closed_append:
  "pair_closed E om1 \<Longrightarrow> pair_closed E om2 \<Longrightarrow> pair_closed E (om1 @ om2)"
  unfolding pair_closed_def by auto

lemma pair_closed_filter:
  "pair_closed E (map zero_lower (filter (\<lambda>e. P (edge_pair e)) E))"
  unfolding pair_closed_def by (auto simp: image_iff) force

lemma pair_closed_omega_of: "pair_closed (ts_edges s) (omega_of s r)"
  unfolding omega_of_def by (rule pair_closed_filter)

lemma upto_join:
  fixes c :: int
  assumes "c \<le> c'" "c' \<le> c''"
  shows "[c + 1..c'] @ [c' + 1..c''] = [c + 1..c'']"
proof (cases "c = c'")
  case True
  then show ?thesis by simp
next
  case False
  with assms have "c + 1 \<le> c'" by simp
  then show ?thesis using assms(2) by (simp add: upto_split2 [of "c + 1" c' c''])
qed

lemma grows_refl: "grows c s c s"
  by (simp add: grows_def pair_closed_Nil)

lemma grows_trans:
  assumes "grows c s c' s'" "grows c' s' c'' s''"
  shows "grows c s c'' s''"
proof -
  from assms(1) obtain new1 newA1 om1 where
    1: "c \<le> c'" "ts_nodes s' = ts_nodes s @ new1" "map node_id new1 = [c + 1..c']"
       "all_additional_nodes s' = all_additional_nodes s \<union> {c + 1..c'}"
       "all_additional_edges s' = all_additional_edges s @ newA1"
       "\<forall>a\<in>set newA1. c < fst a \<or> c < fst (snd a)"
       "omega_store s' = omega_store s @ om1" "pair_closed (ts_edges s) om1"
       "ts_edges s' = ts_edges s" "gp_M s' = gp_M s" "min_gamma s' = min_gamma s"
       "restrictions s' = restrictions s"
    unfolding grows_def by blast
  from assms(2) obtain new2 newA2 om2 where
    2: "c' \<le> c''" "ts_nodes s'' = ts_nodes s' @ new2" "map node_id new2 = [c' + 1..c'']"
       "all_additional_nodes s'' = all_additional_nodes s' \<union> {c' + 1..c''}"
       "all_additional_edges s'' = all_additional_edges s' @ newA2"
       "\<forall>a\<in>set newA2. c' < fst a \<or> c' < fst (snd a)"
       "omega_store s'' = omega_store s' @ om2" "pair_closed (ts_edges s') om2"
       "ts_edges s'' = ts_edges s'" "gp_M s'' = gp_M s'" "min_gamma s'' = min_gamma s'"
       "restrictions s'' = restrictions s'"
    unfolding grows_def by blast
  have a: "c \<le> c''" using 1(1) 2(1) by simp
  have b: "ts_nodes s'' = ts_nodes s @ (new1 @ new2)" using 1(2) 2(2) by simp
  have b': "map node_id (new1 @ new2) = [c + 1..c'']"
    using 1(3) 2(3) upto_join [OF 1(1) 2(1)] by simp
  have d: "all_additional_nodes s'' = all_additional_nodes s \<union> {c + 1..c''}"
    using 1(1,4) 2(1,4) by auto
  have e: "all_additional_edges s'' = all_additional_edges s @ (newA1 @ newA2)"
    using 1(5) 2(5) by simp
  have e': "\<forall>a\<in>set (newA1 @ newA2). c < fst a \<or> c < fst (snd a)"
    using 1(1,6) 2(6) by fastforce
  have f: "omega_store s'' = omega_store s @ (om1 @ om2)" using 1(7) 2(7) by simp
  have f': "pair_closed (ts_edges s) (om1 @ om2)"
    using 1(8,9) 2(8) by (simp add: pair_closed_append)
  have g: "ts_edges s'' = ts_edges s" "gp_M s'' = gp_M s" "min_gamma s'' = min_gamma s"
    "restrictions s'' = restrictions s"
    using 1(9-12) 2(9-12) by simp_all
  from b b' have B: "\<exists>new. ts_nodes s'' = ts_nodes s @ new \<and> map node_id new = [c + 1..c'']"
    by blast
  from e e' have E: "\<exists>newA. all_additional_edges s'' = all_additional_edges s @ newA
      \<and> (\<forall>a\<in>set newA. c < fst a \<or> c < fst (snd a))"
    by blast
  from f f' have F: "\<exists>om. omega_store s'' = omega_store s @ om \<and> pair_closed (ts_edges s) om"
    by blast
  show ?thesis
    unfolding grows_def using a B d E F g by blast
qed

lemma grows_store_omega:
  "pair_closed (ts_edges s) om \<Longrightarrow> grows c s c (s\<lparr>omega_store := omega_store s @ om\<rparr>)"
  by (simp add: grows_def)

lemma grows_build:
  "grows c s (fst (build_escape_topology ext r om vf (c, s)))
     (snd (build_escape_topology ext r om vf (c, s)))"
proof -
  let ?n = "2 * int (length om)"
  let ?new = "[RestrictionArtificialNode (c + 1)
          (''Global_vS_Res'' @ str_int (int (list_index (restrictions s) r))),
        RestrictionArtificialNode (c + 2)
          (''Global_vD_Res'' @ str_int (int (list_index (restrictions s) r)))]
     @ loop_nodes (c + 2) om"
  let ?newA = "loop_edges (c + 1) (c + 2) (c + 2) om
       @ [(c + 1, c + 2, 0, vf, resolve_final_gamma ext s r)]"
  have ids: "map node_id ?new = [c + 1..c + 2 + ?n]"
    using upto_two_more [of ?n c]
    by (simp add: loop_nodes_ids RestrictionArtificialNode_def add.commute add.left_commute)
  have fresh: "\<forall>a\<in>set ?newA. c < fst a \<or> c < fst (snd a)"
    using loop_edges_fresh [of _ "c + 1" "c + 2" "c + 2" om] by fastforce
  have N: "\<exists>new. ts_nodes (snd (build_escape_topology ext r om vf (c, s))) = ts_nodes s @ new
      \<and> map node_id new = [c + 1..c + 2 + ?n]"
    using ids build_nodes [of ext r om vf c s] by blast
  have A: "\<exists>newA. all_additional_edges (snd (build_escape_topology ext r om vf (c, s)))
        = all_additional_edges s @ newA \<and> (\<forall>a\<in>set newA. c < fst a \<or> c < fst (snd a))"
    using fresh build_edges [of ext r om vf c s] by blast
  have O: "\<exists>om'. omega_store (snd (build_escape_topology ext r om vf (c, s))) = omega_store s @ om'
      \<and> pair_closed (ts_edges s) om'"
    using pair_closed_Nil [of "ts_edges s"] by (intro exI [of _ "[]"]) (simp add: build_frame)
  show ?thesis
    unfolding grows_def build_counter build_ids
    using N A O by (simp add: build_frame)
qed

lemma process_grows:
  assumes "gp_M s \<noteq> 0" "process_restriction ext r (c, s) = Inr (c', s')"
  shows "grows c s c' s'"
proof -
  let ?s1 = "s\<lparr>omega_store := omega_store s @ omega_of s r\<rparr>"
  have s1: "grows c s c ?s1"
    by (rule grows_store_omega [OF pair_closed_omega_of])
  consider (skip) "c' = c" "s' = s"
    | (no_flow) "c' = c" "s' = ?s1"
    | (build) "(c', s') = build_escape_topology ext r (omega_of s r) (virtual_flow_of ext s r) (c, ?s1)"
    using assms by (auto simp: process_restriction_closed split: if_splits)
  then show ?thesis
  proof cases
    case skip
    then show ?thesis by (simp add: grows_refl)
  next
    case no_flow
    then show ?thesis using s1 by simp
  next
    case build
    from grows_build [of c ?s1 ext r "omega_of s r" "virtual_flow_of ext s r"] build [symmetric]
    have "grows c ?s1 c' s'" by simp
    with s1 show ?thesis by (rule grows_trans)
  qed
qed

lemma process_total:
  "gp_M s \<noteq> 0 \<Longrightarrow> \<exists>cs'. process_restriction ext r (c, s) = Inr cs'"
  by (simp add: process_restriction_closed)

lemma loop_grows:
  assumes "gp_M s \<noteq> 0"
  shows "\<exists>c' s'. restriction_loop ext rs (c, s) = Inr (c', s') \<and> grows c s c' s'"
  using assms
proof (induction rs arbitrary: c s)
  case Nil
  then show ?case by (simp add: grows_refl)
next
  case (Cons r rs)
  from process_total [OF Cons.prems] obtain c1 s1 where
    p: "process_restriction ext r (c, s) = Inr (c1, s1)" by fastforce
  from process_grows [OF Cons.prems p] have g1: "grows c s c1 s1" .
  then have "gp_M s1 \<noteq> 0" using Cons.prems by (simp add: grows_def)
  from Cons.IH [OF this, of c1] obtain c' s' where
    l: "restriction_loop ext rs (c1, s1) = Inr (c', s')" and g2: "grows c1 s1 c' s'" by blast
  from grows_trans [OF g1 g2] p l show ?case by simp
qed

subsection \<open>Cleanup and commit\<close>

lemma cleanup_noop:
  assumes "all_additional_nodes t = {}" "all_additional_edges t = []" "omega_store t = []"
    "virtual_node_demands t = []"
  shows "remove_artificial_artifact t = t"
  using assms by (cases t) (simp add: remove_artificial_artifact_def)

lemma cleanup_ledger:
  "all_additional_nodes (remove_artificial_artifact t) = {}"
  "all_additional_edges (remove_artificial_artifact t) = []"
  "omega_store (remove_artificial_artifact t) = []"
  "virtual_node_demands (remove_artificial_artifact t) = []"
  by (simp_all add: remove_artificial_artifact_def Let_def)

lemma cleanup_idem:
  "remove_artificial_artifact (remove_artificial_artifact t) = remove_artificial_artifact t"
  by (rule cleanup_noop) (rule cleanup_ledger)+

lemma cleanup_nodes:
  "ts_nodes (remove_artificial_artifact t) =
     (if all_additional_nodes t \<noteq> {}
      then filter (\<lambda>n. node_id n \<notin> all_additional_nodes t) (ts_nodes t) else ts_nodes t)"
  by (simp add: remove_artificial_artifact_def Let_def)

lemma any_pair_recorded:
  "list_ex (\<lambda>e. edge_pair e \<in> edge_pair ` set A) A \<longleftrightarrow> A \<noteq> []"
  by (cases A) (auto simp: list_ex_iff)

lemma re_add_all:
  "filter (\<lambda>edge. list_ex (\<lambda>e. edge_pair e \<in> edge_pair ` set A) A) om =
     (if A \<noteq> [] then om else [])"
  by (simp add: any_pair_recorded)

lemma cleanup_edges:
  "set (ts_edges (remove_artificial_artifact t)) =
     (if all_additional_edges t \<noteq> []
      then {e \<in> set (ts_edges t). edge_pair e \<notin> edge_pair ` set (all_additional_edges t)}
           \<union> set (omega_store t)
      else set (ts_edges t))"
  by (auto simp: remove_artificial_artifact_def Let_def re_add_all)

lemma commit_fields:
  "ts_nodes (commit_graph_update t) = ts_nodes t"
  "all_additional_nodes (commit_graph_update t) = all_additional_nodes t"
  "all_additional_edges (commit_graph_update t) = all_additional_edges t"
  "omega_store (commit_graph_update t) = omega_store t"
  "virtual_node_demands (commit_graph_update t) = virtual_node_demands t"
  by (simp_all add: commit_graph_update_def Let_def)

lemma commit_edges:
  "ts_edges (commit_graph_update t) =
     (if all_additional_edges t \<noteq> []
      then filter (\<lambda>e. edge_pair e \<notin> edge_pair ` set (omega_store t)) (ts_edges t)
           @ all_additional_edges t
      else ts_edges t)"
  by (simp add: commit_graph_update_def Let_def)

subsection \<open>Id allocation\<close>

lemma grows_from_empty_ids:
  assumes "grows c s c' s'" "all_additional_nodes s = {}"
  shows "\<exists>new n. ts_nodes s' = ts_nodes s @ new \<and> map node_id new = [c + 1..c + int n]
     \<and> all_additional_nodes s' = set (map node_id new) \<and> distinct (map node_id new)
     \<and> (\<forall>i\<in>all_additional_nodes s'. c < i)"
proof -
  from assms obtain new where
    n: "c \<le> c'" "ts_nodes s' = ts_nodes s @ new" "map node_id new = [c + 1..c']"
      "all_additional_nodes s' = {c + 1..c'}"
    unfolding grows_def by auto
  have c': "c' = c + int (nat (c' - c))" using n(1) by simp
  have "map node_id new = [c + 1..c + int (nat (c' - c))]" using n(3) c' by simp
  moreover have "all_additional_nodes s' = set (map node_id new)" using n(3,4) by simp
  moreover have "distinct (map node_id new)" using n(3) by simp
  moreover have "\<forall>i\<in>all_additional_nodes s'. c < i" using n(4) by simp
  ultimately show ?thesis using n(2) by blast
qed

text \<open>
  Claim C6. In an apply cycle (a batch with a valid restriction, or any batch on an
  empty ledger) on a graph with \<open>M \<noteq> 0\<close>, the nodes appended to the graph carry the
  ids \<open>max_id + 1, max_id + 2, \<dots>, max_id + n\<close> in this order, one counter seeded with the
  pre-batch maximum id and incremented before each allocation; \<open>additional_nodes\<close> is
  exactly this set of ids. So the ids are pairwise distinct and each exceeds
  \<open>max_id\<close>, hence every node id of the graph before the batch when \<open>max_id\<close> bounds
  them.
\<close>

theorem allocator_ids_fresh_distinct:
  assumes M: "gp_M s \<noteq> 0"
    and cycle: "filter validate_restriction rd \<noteq> []
                \<or> (all_additional_nodes s = {} \<and> all_additional_edges s = [])"
  shows "\<exists>s' base new n.
      apply_restriction ext max_id rd s = Inr s'
    \<and> ts_nodes s' = base @ new \<and> set base \<subseteq> set (ts_nodes s)
    \<and> map node_id new = [max_id + 1..max_id + int n]
    \<and> all_additional_nodes s' = set (map node_id new)
    \<and> distinct (map node_id new)
    \<and> (\<forall>i\<in>all_additional_nodes s'. max_id < i)
    \<and> ((\<forall>m\<in>set (ts_nodes s). node_id m \<le> max_id)
         \<longrightarrow> (\<forall>m\<in>set (ts_nodes s). \<forall>i\<in>all_additional_nodes s'. node_id m < i))"
proof -
  let ?P = "\<lambda>s' base new n.
      apply_restriction ext max_id rd s = Inr s'
    \<and> ts_nodes s' = base @ new \<and> set base \<subseteq> set (ts_nodes s)
    \<and> map node_id new = [max_id + 1..max_id + int n]
    \<and> all_additional_nodes s' = set (map node_id new)
    \<and> distinct (map node_id new)
    \<and> (\<forall>i\<in>all_additional_nodes s'. max_id < i)
    \<and> ((\<forall>m\<in>set (ts_nodes s). node_id m \<le> max_id)
         \<longrightarrow> (\<forall>m\<in>set (ts_nodes s). \<forall>i\<in>all_additional_nodes s'. node_id m < i))"
  show ?thesis
  proof (cases "filter validate_restriction rd = []")
  case True
  with cycle have e: "all_additional_nodes s = {}" "all_additional_edges s = []" by simp_all
  let ?s0 = "set_restrictions rd s"
  have "apply_restriction ext max_id rd s = Inr ?s0"
    using True by (simp add: apply_restriction_def set_restrictions_def)
  moreover have "ts_nodes ?s0 = ts_nodes s @ []" "all_additional_nodes ?s0 = {}"
    using e by (simp_all add: set_restrictions_def)
  moreover have "map node_id ([] :: node list) = [max_id + 1..max_id + int 0]" by simp
  ultimately have "?P ?s0 (ts_nodes s) [] 0" by simp
  then show ?thesis by blast
next
  case False
  let ?s0 = "set_restrictions rd s"
  let ?s1 = "if all_additional_nodes ?s0 \<noteq> {} \<or> all_additional_edges ?s0 \<noteq> []
             then remove_artificial_artifact ?s0 else ?s0"
  have r: "restrictions ?s0 \<noteq> []" using False by (simp add: set_restrictions_def)
  have M1: "gp_M ?s1 \<noteq> 0"
    using M by (simp add: set_restrictions_def remove_artificial_artifact_def Let_def)
  have ids1: "all_additional_nodes ?s1 = {}"
    by (auto simp: cleanup_ledger)
  have base: "set (ts_nodes ?s1) \<subseteq> set (ts_nodes s)"
    by (auto simp: cleanup_nodes set_restrictions_def)
  from loop_grows [OF M1, of ext "restrictions ?s1" max_id] obtain c' s2 where
    l: "restriction_loop ext (restrictions ?s1) (max_id, ?s1) = Inr (c', s2)"
    and g: "grows max_id ?s1 c' s2" by blast
  have a: "apply_restriction ext max_id rd s = Inr (commit_graph_update s2)"
    using r l unfolding apply_restriction_def Let_def by simp
  from grows_from_empty_ids [OF g ids1] obtain new n where
    n: "ts_nodes s2 = ts_nodes ?s1 @ new" "map node_id new = [max_id + 1..max_id + int n]"
      "all_additional_nodes s2 = set (map node_id new)" "distinct (map node_id new)"
      "\<forall>i\<in>all_additional_nodes s2. max_id < i"
    by blast
  have "\<forall>m\<in>set (ts_nodes s). \<forall>i\<in>all_additional_nodes s2. node_id m < i"
    if "\<forall>m\<in>set (ts_nodes s). node_id m \<le> max_id"
    using that n(5) by fastforce
  with a n base have "?P (commit_graph_update s2) (ts_nodes ?s1) new n"
    by (simp add: commit_fields)
  then show ?thesis by blast
  qed
qed

theorem allocator_ids_fresh_distinct_witness:
  "gp_M example_controller \<noteq> 0
   \<and> filter validate_restriction [restriction_A, restriction_B] \<noteq> []
   \<and> list_all (\<lambda>m. node_id m \<le> 12) (ts_nodes example_controller)
   \<and> (\<exists>s' base new n.
        apply_restriction example_externals 12 [restriction_A, restriction_B]
          example_controller = Inr s'
      \<and> ts_nodes s' = base @ new \<and> set base \<subseteq> set (ts_nodes example_controller)
      \<and> map node_id new = [12 + 1..12 + int n]
      \<and> all_additional_nodes s' = set (map node_id new)
      \<and> distinct (map node_id new)
      \<and> (\<forall>i\<in>all_additional_nodes s'. 12 < i)
      \<and> (\<forall>m\<in>set (ts_nodes example_controller). \<forall>i\<in>all_additional_nodes s'. node_id m < i))"
proof -
  have M: "gp_M example_controller \<noteq> 0"
    by (simp add: example_defs)
  have v: "filter validate_restriction [restriction_A, restriction_B] \<noteq> []"
    by (simp add: restriction_A_def validate_restriction_def)
  have b: "\<forall>m\<in>set (ts_nodes example_controller). node_id m \<le> 12"
    by (simp add: example_defs)
  from allocator_ids_fresh_distinct [OF M disjI1 [OF v], of example_externals 12] M v b
  show ?thesis unfolding list_all_iff by blast
qed

subsection \<open>Virtual node demands\<close>

lemma update_fresh_append:
  "k \<notin> fst ` set al \<Longrightarrow> AList.update k v al = al @ [(k, v)]"
  by (induction al) auto

lemma build_demands_append:
  assumes "\<forall>k\<in>fst ` set (virtual_node_demands s). k \<le> c"
  shows "virtual_node_demands (snd (build_escape_topology ext r om vf (c, s))) =
     virtual_node_demands s @ [(c + 1, vf), (c + 2, - vf)]"
proof -
  have 1: "c + 1 \<notin> fst ` set (virtual_node_demands s)" using assms by fastforce
  have 2: "c + 2 \<notin> fst ` set (virtual_node_demands s @ [(c + 1, vf)])" using assms by fastforce
  show ?thesis
    unfolding build_demands update_fresh_append [OF 1] update_fresh_append [OF 2] by simp
qed

lemma demand_inv_build:
  assumes "demand_inv c s"
  shows "demand_inv (fst (build_escape_topology ext r om vf (c, s)))
           (snd (build_escape_topology ext r om vf (c, s)))"
proof -
  from assms have k: "\<forall>k\<in>fst ` set (virtual_node_demands s). k \<le> c"
    by (simp add: demand_inv_def)
  from k have "c + 1 \<notin> fst ` set (virtual_node_demands s)" "c + 2 \<notin> fst ` set (virtual_node_demands s)"
    by fastforce+
  with assms k show ?thesis
    unfolding demand_inv_def demands_balanced_def build_counter build_demands_append [OF k]
      build_ids
    by (auto simp: image_iff)
qed

lemma demand_inv_store [simp]:
  "demand_inv c (s\<lparr>omega_store := x\<rparr>) = demand_inv c s"
  by (simp add: demand_inv_def demands_balanced_def)

lemma process_demand_inv:
  assumes "gp_M s \<noteq> 0" "process_restriction ext r (c, s) = Inr (c', s')" "demand_inv c s"
  shows "demand_inv c' s'"
proof -
  let ?s1 = "s\<lparr>omega_store := omega_store s @ omega_of s r\<rparr>"
  consider (skip) "c' = c" "s' = s"
    | (no_flow) "c' = c" "s' = ?s1"
    | (build) "(c', s') = build_escape_topology ext r (omega_of s r) (virtual_flow_of ext s r) (c, ?s1)"
    using assms(1,2) by (auto simp: process_restriction_closed split: if_splits)
  then show ?thesis
  proof cases
    case skip
    then show ?thesis using assms(3) by simp
  next
    case no_flow
    then show ?thesis using assms(3) by simp
  next
    case build
    have "demand_inv c ?s1" using assms(3) by simp
    from demand_inv_build [OF this, of ext r "omega_of s r" "virtual_flow_of ext s r"] build [symmetric]
    show ?thesis by simp
  qed
qed

lemma loop_demand_inv:
  assumes "gp_M s \<noteq> 0" "restriction_loop ext rs (c, s) = Inr (c', s')" "demand_inv c s"
  shows "demand_inv c' s'"
  using assms
proof (induction rs arbitrary: c s)
  case Nil
  then show ?case by simp
next
  case (Cons r rs)
  from process_total [OF Cons.prems(1)] obtain c1 s1 where
    p: "process_restriction ext r (c, s) = Inr (c1, s1)" by fastforce
  from process_grows [OF Cons.prems(1) p] have "gp_M s1 \<noteq> 0"
    using Cons.prems(1) by (simp add: grows_def)
  moreover have "restriction_loop ext rs (c1, s1) = Inr (c', s')"
    using Cons.prems(2) p by simp
  moreover have "demand_inv c1 s1"
    by (rule process_demand_inv [OF Cons.prems(1) p Cons.prems(3)])
  ultimately show ?case by (rule Cons.IH)
qed

lemma dict_get_missing: "k \<notin> fst ` set d \<Longrightarrow> dict_get d k dflt = dflt"
  by (simp add: dict_get_def map_of_eq_None_iff [THEN iffD2])

lemma apply_demand_inv:
  assumes M: "gp_M s \<noteq> 0" and d: "demands_balanced s"
  shows "\<exists>s'. apply_restriction ext max_id rd s = Inr s' \<and> demands_balanced s'"
proof -
  let ?s0 = "set_restrictions rd s"
  let ?s1 = "if all_additional_nodes ?s0 \<noteq> {} \<or> all_additional_edges ?s0 \<noteq> []
             then remove_artificial_artifact ?s0 else ?s0"
  have d0: "demands_balanced ?s0"
    using d by (simp add: demands_balanced_def set_restrictions_def)
  show ?thesis
  proof (cases "restrictions ?s0 = []")
    case True
    then have "apply_restriction ext max_id rd s = Inr ?s0"
      by (simp add: apply_restriction_def)
    with d0 show ?thesis by simp
  next
    case False
    have M1: "gp_M ?s1 \<noteq> 0"
      using M by (simp add: set_restrictions_def remove_artificial_artifact_def Let_def)
    have "virtual_node_demands ?s1 = []"
      using d0 by (auto simp: cleanup_ledger demands_balanced_def)
    then have inv: "demand_inv max_id ?s1"
      by (simp add: demand_inv_def demands_balanced_def)
    from loop_grows [OF M1, of ext "restrictions ?s1" max_id] obtain c' s2 where
      l: "restriction_loop ext (restrictions ?s1) (max_id, ?s1) = Inr (c', s2)" by blast
    have a: "apply_restriction ext max_id rd s = Inr (commit_graph_update s2)"
      using False l unfolding apply_restriction_def Let_def by simp
    from loop_demand_inv [OF M1 l inv] have "demand_inv c' s2" .
    with a show ?thesis by (simp add: demand_inv_def demands_balanced_def commit_fields)
  qed
qed

lemma process_demand_step:
  assumes M: "gp_M s \<noteq> 0"
    and k: "\<forall>k\<in>fst ` set (virtual_node_demands s). k \<le> c"
    and p: "process_restriction ext r (c, s) = Inr (c', s')"
  shows "(all_additional_edges s' = all_additional_edges s
          \<and> virtual_node_demands s' = virtual_node_demands s)
       \<or> (\<exists>vf. 0 < vf
            \<and> virtual_node_demands s' = virtual_node_demands s @ [(c + 1, vf), (c + 2, - vf)]
            \<and> last (all_additional_edges s') = (c + 1, c + 2, 0, vf, resolve_final_gamma ext s r))"
proof -
  let ?s1 = "s\<lparr>omega_store := omega_store s @ omega_of s r\<rparr>"
  let ?vf = "virtual_flow_of ext s r"
  consider (skip) "c' = c" "s' = s"
    | (no_flow) "c' = c" "s' = ?s1"
    | (build) "0 < ?vf" "(c', s') = build_escape_topology ext r (omega_of s r) ?vf (c, ?s1)"
    using M p by (auto simp: process_restriction_closed split: if_splits)
  then show ?thesis
  proof cases
    case skip
    then show ?thesis by simp
  next
    case no_flow
    then show ?thesis by simp
  next
    case build
    have k1: "\<forall>k\<in>fst ` set (virtual_node_demands ?s1). k \<le> c" using k by simp
    have s': "s' = snd (build_escape_topology ext r (omega_of s r) ?vf (c, ?s1))"
      using build(2) [symmetric] by simp
    have "virtual_node_demands s' = virtual_node_demands s @ [(c + 1, ?vf), (c + 2, - ?vf)]"
      unfolding s' build_demands_append [OF k1] by simp
    moreover have "last (all_additional_edges s') = (c + 1, c + 2, 0, ?vf, resolve_final_gamma ext s r)"
      unfolding s' build_edges by simp
    ultimately show ?thesis using build(1) by blast
  qed
qed

text \<open>
  Claim C10. The demand map is balanced (distinct keys, values summing to zero,
  entries only while artificial nodes are recorded) in the controller as created,
  after every apply on a balanced state with \<open>M \<noteq> 0\<close>, and after every cleanup, which
  empties the map. The demand of a node id that is not a key is \<open>0\<close>. One restriction
  either leaves the recorded edges and the map as they are, or appends the two
  entries \<open>vS \<mapsto> +virtual_flow\<close> and \<open>vD \<mapsto> -virtual_flow\<close> for the endpoints
  \<open>vS = c + 1\<close>, \<open>vD = c + 2\<close> of its escape edge, whose capacity is that virtual flow.
\<close>

theorem virtual_demands_balanced:
  "demands_balanced (init_controller M nodes edges nmap)
   \<and> (gp_M s \<noteq> 0 \<and> demands_balanced s \<longrightarrow>
        (\<exists>s'. apply_restriction ext max_id rd s = Inr s' \<and> demands_balanced s'))
   \<and> demands_balanced (remove_artificial_artifact s)
   \<and> virtual_node_demands (remove_artificial_artifact s) = []
   \<and> (demands_balanced s \<longrightarrow>
        distinct (map fst (virtual_node_demands s))
        \<and> sum_list (map snd (virtual_node_demands s)) = 0)
   \<and> (n \<notin> fst ` set (virtual_node_demands s) \<longrightarrow> get_virtual_node_demand s n = 0)
   \<and> (gp_M s \<noteq> 0 \<and> (\<forall>k\<in>fst ` set (virtual_node_demands s). k \<le> c)
        \<and> process_restriction ext r (c, s) = Inr (c', s') \<longrightarrow>
          (all_additional_edges s' = all_additional_edges s
             \<and> virtual_node_demands s' = virtual_node_demands s)
        \<or> (\<exists>vf. 0 < vf
             \<and> virtual_node_demands s' = virtual_node_demands s @ [(c + 1, vf), (c + 2, - vf)]
             \<and> last (all_additional_edges s') = (c + 1, c + 2, 0, vf, resolve_final_gamma ext s r)))"
proof -
  have 1: "demands_balanced (init_controller M nodes edges nmap)"
    by (simp add: demands_balanced_def init_controller_def)
  have 2: "demands_balanced (remove_artificial_artifact s)"
    by (simp add: demands_balanced_def cleanup_ledger)
  from 1 2 apply_demand_inv [of s ext max_id rd] process_demand_step [of s c ext r c' s']
  show ?thesis
    by (simp add: cleanup_ledger get_virtual_node_demand_def dict_get_missing
        demands_balanced_def)
qed

theorem virtual_demands_balanced_witness:
  "gp_M example_controller \<noteq> 0
   \<and> demands_balanced example_controller
   \<and> (\<exists>s'. apply_restriction example_externals 12 [restriction_A, restriction_B]
               example_controller = Inr s'
         \<and> distinct (map fst (virtual_node_demands s'))
         \<and> sum_list (map snd (virtual_node_demands s')) = 0)
   \<and> 99 \<notin> fst ` set (virtual_node_demands example_controller)
   \<and> get_virtual_node_demand example_controller 99 = 0
   \<and> process_restriction example_externals restriction_B (12, example_controller)
       = Inr (build_escape_topology example_externals restriction_B [(6, 9, 0, 1, 10)] 1
                (12, example_controller\<lparr>omega_store := [(6, 9, 0, 1, 10)]\<rparr>))
   \<and> virtual_node_demands
         (snd (build_escape_topology example_externals restriction_B [(6, 9, 0, 1, 10)] 1
                 (12, example_controller\<lparr>omega_store := [(6, 9, 0, 1, 10)]\<rparr>)))
       = [(13, 1), (14, - 1)]"
proof -
  let ?b = "build_escape_topology example_externals restriction_B [(6, 9, 0, 1, 10)] 1
                (12, example_controller\<lparr>omega_store := [(6, 9, 0, 1, 10)]\<rparr>)"
  have M: "gp_M example_controller \<noteq> 0" and d: "virtual_node_demands example_controller = []"
    by (simp_all add: example_defs)
  have bal: "demands_balanced example_controller"
    using d by (simp add: demands_balanced_def)
  have k: "\<forall>k\<in>fst ` set (virtual_node_demands example_controller). k \<le> 12"
    and n: "99 \<notin> fst ` set (virtual_node_demands example_controller)"
    using d by simp_all
  have p: "process_restriction example_externals restriction_B (12, example_controller) = Inr ?b"
    by (simp add: example_defs process_restriction_def identify_restricted_edges_def
        get_node_time_def get_node_coordinates_def
        calculate_incoming_capacity_for_restricted_nodes_def
        calculate_outgoing_capacity_for_restricted_nodes_def dict_get_def
        calculate_virtual_flow_def Let_def)
  have c: "fst ?b = 16" by (simp add: build_counter)
  have e: "all_additional_edges (snd ?b) \<noteq> all_additional_edges example_controller"
    using d by (simp add: build_edges)
  from p c have p': "process_restriction example_externals restriction_B (12, example_controller)
      = Inr (16, snd ?b)"
    by (metis prod.collapse)
  note t = virtual_demands_balanced [of 3 example_nodes example_edges Map.empty
      example_controller example_externals 12 "[restriction_A, restriction_B]" 99 12
      restriction_B 16 "snd ?b"]
  from t M bal obtain s' where s': "apply_restriction example_externals 12
      [restriction_A, restriction_B] example_controller = Inr s'" "demands_balanced s'"
    by blast
  from s'(2) have s'': "distinct (map fst (virtual_node_demands s'))"
    "sum_list (map snd (virtual_node_demands s')) = 0"
    by (simp_all add: demands_balanced_def)
  from t n have g: "get_virtual_node_demand example_controller 99 = 0" by blast
  from t M k p' e
  have "\<exists>vf. 0 < vf \<and> virtual_node_demands (snd ?b)
             = virtual_node_demands example_controller @ [(12 + 1, vf), (12 + 2, - vf)]
           \<and> last (all_additional_edges (snd ?b))
               = (12 + 1, 12 + 2, 0, vf, resolve_final_gamma example_externals example_controller restriction_B)"
    by blast
  moreover have "last (all_additional_edges (snd ?b))
      = (13, 14, 0, 1, resolve_final_gamma example_externals example_controller restriction_B)"
    by (simp add: build_edges)
  ultimately have v: "virtual_node_demands (snd ?b) = [(13, 1), (14, - 1)]"
    using d by auto
  from M bal s'(1) s'' n g p v show ?thesis by blast
qed

subsection \<open>Cleanup after apply\<close>

lemma zero_lower_id: "edge_lower e = 0 \<Longrightarrow> zero_lower e = e"
  by (cases e) (simp add: zero_lower_def edge_lower_def)

lemma restore_edges:
  assumes "pair_closed E om" "\<forall>e\<in>set E. edge_lower e = 0"
  shows "{e \<in> set E. edge_pair e \<notin> edge_pair ` set om} \<union> set om = set E"
proof -
  have z: "zero_lower e = e" if "e \<in> set E" for e
    using that assms(2) by (simp add: zero_lower_id)
  have sub: "set om \<subseteq> set E"
  proof
    fix x assume "x \<in> set om"
    with assms(1) obtain e where "e \<in> set E" "x = zero_lower e"
      unfolding pair_closed_def by auto
    with z show "x \<in> set E" by simp
  qed
  have cl: "e \<in> set om" if "e \<in> set E" "edge_pair e \<in> edge_pair ` set om" for e
    using that assms(1) z unfolding pair_closed_def by fastforce
  show ?thesis using sub cl by blast
qed

lemma recorded_pairs_fresh:
  assumes "\<forall>a\<in>set newA. c < fst a \<or> c < fst (snd a)"
    and "\<forall>e\<in>set E. fst e \<le> c \<and> fst (snd e) \<le> c"
  shows "{e \<in> set E. P e \<and> edge_pair e \<notin> edge_pair ` set newA} = {e \<in> set E. P e}"
proof -
  have "edge_pair e \<notin> edge_pair ` set newA" if "e \<in> set E" for e
  proof
    assume "edge_pair e \<in> edge_pair ` set newA"
    then obtain a where a: "a \<in> set newA" "edge_pair e = edge_pair a" by auto
    from a(2) have "fst e = fst a" "fst (snd e) = fst (snd a)"
      by (cases e; cases a; simp add: edge_pair_def)+
    with assms a(1) that show False by fastforce
  qed
  then show ?thesis by blast
qed

lemma recorded_pairs_self:
  "{a \<in> set newA. edge_pair a \<notin> edge_pair ` set newA} = {}"
  by auto

lemma filter_fresh_nodes:
  assumes "\<forall>n\<in>set N. node_id n \<le> c" "map node_id new = [c + 1..c']"
  shows "filter (\<lambda>n. node_id n \<notin> {c + 1..c'}) (N @ new) = N"
proof -
  have "set (map node_id new) = {c + 1..c'}" using assms(2) by simp
  then have "\<forall>n\<in>set new. node_id n \<in> {c + 1..c'}" by auto
  then have "filter (\<lambda>n. node_id n \<notin> {c + 1..c'}) new = []" by (simp add: filter_empty_conv)
  moreover have "filter (\<lambda>n. node_id n \<notin> {c + 1..c'}) N = N"
    using assms(1) by (simp add: filter_id_conv) fastforce
  ultimately show ?thesis by simp
qed

text \<open>
  Claim C2. On a graph of the data model (every lower bound \<open>0\<close>, no node id and no
  edge endpoint above \<open>max_id\<close>, \<open>M \<noteq> 0\<close>) and an empty ledger, apply returns for every
  batch, and cleanup after it leaves the node set and the edge set equal to those
  before apply. A second cleanup changes nothing at all: the state after it is the
  state after the first, and so are both sets.
\<close>

theorem cleanup_restores_graph:
  assumes ledger: "all_additional_nodes s = {}" "all_additional_edges s = []"
      "omega_store s = []" "virtual_node_demands s = []"
    and M: "gp_M s \<noteq> 0"
    and nodes: "\<forall>n\<in>set (ts_nodes s). node_id n \<le> max_id"
    and edges: "\<forall>e\<in>set (ts_edges s). edge_lower e = 0 \<and> fst e \<le> max_id \<and> fst (snd e) \<le> max_id"
  shows "\<exists>s'. apply_restriction ext max_id rd s = Inr s'
      \<and> set (ts_nodes (remove_artificial_artifact s')) = set (ts_nodes s)
      \<and> set (ts_edges (remove_artificial_artifact s')) = set (ts_edges s)
      \<and> remove_artificial_artifact (remove_artificial_artifact s') = remove_artificial_artifact s'
      \<and> set (ts_nodes (remove_artificial_artifact (remove_artificial_artifact s'))) = set (ts_nodes s)
      \<and> set (ts_edges (remove_artificial_artifact (remove_artificial_artifact s'))) = set (ts_edges s)"
proof -
  let ?s0 = "set_restrictions rd s"
  have l0: "all_additional_nodes ?s0 = {}" "all_additional_edges ?s0 = []"
    "omega_store ?s0 = []" "virtual_node_demands ?s0 = []"
    using ledger by (simp_all add: set_restrictions_def)
  have g0: "ts_nodes ?s0 = ts_nodes s" "ts_edges ?s0 = ts_edges s" "gp_M ?s0 = gp_M s"
    by (simp_all add: set_restrictions_def)
  have main: "\<exists>s'. apply_restriction ext max_id rd s = Inr s'
      \<and> ts_nodes (remove_artificial_artifact s') = ts_nodes s
      \<and> set (ts_edges (remove_artificial_artifact s')) = set (ts_edges s)"
  proof (cases "restrictions ?s0 = []")
    case True
    then have "apply_restriction ext max_id rd s = Inr ?s0"
      by (simp add: apply_restriction_def)
    moreover have "remove_artificial_artifact ?s0 = ?s0"
      by (rule cleanup_noop [OF l0])
    ultimately show ?thesis using g0 by simp
  next
    case False
    have M0: "gp_M ?s0 \<noteq> 0" using M g0 by simp
    from loop_grows [OF M0, of ext "restrictions ?s0" max_id] obtain c' s2 where
      l: "restriction_loop ext (restrictions ?s0) (max_id, ?s0) = Inr (c', s2)"
      and g: "grows max_id ?s0 c' s2" by blast
    let ?s' = "commit_graph_update s2"
    have a: "apply_restriction ext max_id rd s = Inr ?s'"
      using False l l0 unfolding apply_restriction_def Let_def by simp
    from g l0 g0 obtain new newA om where
      n: "max_id \<le> c'" "ts_nodes s2 = ts_nodes s @ new" "map node_id new = [max_id + 1..c']"
        "all_additional_nodes s2 = {max_id + 1..c'}"
        "all_additional_edges s2 = newA"
        "\<forall>a\<in>set newA. max_id < fst a \<or> max_id < fst (snd a)"
        "omega_store s2 = om" "pair_closed (ts_edges s) om" "ts_edges s2 = ts_edges s"
      unfolding grows_def by auto
    have nodes': "ts_nodes (remove_artificial_artifact ?s') = ts_nodes s"
    proof (cases "{max_id + 1..c'} = {}")
      case True
      then have "[max_id + 1..c'] = []" by simp
      with n(3) have "new = []" by simp
      with True n(2,4) show ?thesis by (simp add: cleanup_nodes commit_fields)
    next
      case False
      with n(2,4) filter_fresh_nodes [OF nodes n(3)] show ?thesis
        by (simp add: cleanup_nodes commit_fields)
    qed
    have low: "\<forall>e\<in>set (ts_edges s). edge_lower e = 0" using edges by simp
    have bnd: "\<forall>e\<in>set (ts_edges s). fst e \<le> max_id \<and> fst (snd e) \<le> max_id"
      using edges by simp
    have edges': "set (ts_edges (remove_artificial_artifact ?s')) = set (ts_edges s)"
    proof (cases "newA = []")
      case True
      with n(5,9) show ?thesis by (simp add: cleanup_edges commit_fields commit_edges)
    next
      case False
      have "set (ts_edges (remove_artificial_artifact ?s')) =
          {e \<in> set (ts_edges s). edge_pair e \<notin> edge_pair ` set om
              \<and> edge_pair e \<notin> edge_pair ` set newA}
          \<union> {a \<in> set newA. edge_pair a \<notin> edge_pair ` set newA} \<union> set om"
        using False n(5,7,9) by (auto simp: cleanup_edges commit_fields commit_edges)
      also have "\<dots> = {e \<in> set (ts_edges s). edge_pair e \<notin> edge_pair ` set om} \<union> set om"
        unfolding recorded_pairs_fresh [OF n(6) bnd] recorded_pairs_self by simp
      also have "\<dots> = set (ts_edges s)"
        by (rule restore_edges [OF n(8) low])
      finally show ?thesis .
    qed
    from a nodes' edges' show ?thesis by blast
  qed
  then obtain s' where s': "apply_restriction ext max_id rd s = Inr s'"
      "ts_nodes (remove_artificial_artifact s') = ts_nodes s"
      "set (ts_edges (remove_artificial_artifact s')) = set (ts_edges s)"
    by blast
  then show ?thesis by (simp add: cleanup_idem)
qed

theorem cleanup_restores_graph_witness:
  "all_additional_nodes example_controller = {}
   \<and> all_additional_edges example_controller = []
   \<and> omega_store example_controller = []
   \<and> virtual_node_demands example_controller = []
   \<and> gp_M example_controller \<noteq> 0
   \<and> list_all (\<lambda>n. node_id n \<le> 12) (ts_nodes example_controller)
   \<and> list_all (\<lambda>e. edge_lower e = 0 \<and> fst e \<le> 12 \<and> fst (snd e) \<le> 12)
         (ts_edges example_controller)
   \<and> (\<exists>s'. apply_restriction example_externals 12 [restriction_A, restriction_B]
               example_controller = Inr s'
         \<and> set (ts_nodes (remove_artificial_artifact s')) = set example_nodes
         \<and> set (ts_edges (remove_artificial_artifact s')) = set example_edges
         \<and> remove_artificial_artifact (remove_artificial_artifact s')
             = remove_artificial_artifact s')"
proof -
  have h: "all_additional_nodes example_controller = {}"
    "all_additional_edges example_controller = []"
    "omega_store example_controller = []"
    "virtual_node_demands example_controller = []"
    "gp_M example_controller \<noteq> 0"
    "\<forall>n\<in>set (ts_nodes example_controller). node_id n \<le> 12"
    "\<forall>e\<in>set (ts_edges example_controller).
         edge_lower e = 0 \<and> fst e \<le> 12 \<and> fst (snd e) \<le> 12"
    by (simp_all add: example_defs edge_lower_def)
  have g: "ts_nodes example_controller = example_nodes"
    "ts_edges example_controller = example_edges"
    by (simp_all add: example_controller_def init_controller_def)
  from cleanup_restores_graph [OF h, of example_externals "[restriction_A, restriction_B]"] h
  show ?thesis unfolding g list_all_iff by blast
qed

subsection \<open>A restriction that needs no virtual flow\<close>

text \<open>
  Claim C1. The claim says that a restriction with a non-empty omega and virtual flow
  zero changes nothing: its omega edges stay in the live edge set at commit. The
  program stores the omega of a restriction before it looks at the virtual flow, and
  the commit removes every stored omega edge. In the worked batch restriction A has
  omega \<open>(4, 5, 0, 1, 5)\<close>, \<open>(7, 8, 0, 1, 5)\<close> and virtual flow \<open>max(0, 0 - 5) = 0\<close>;
  after apply both edges are in the stored omega and gone from \<open>ts_edges\<close>, with no
  edge recorded in their place.
\<close>

theorem zero_flow_restriction_edges_removed:
  "identify_restricted_edges 3 example_edges (restriction_edges restriction_A) 0 3
     = Inr [(4, 5, 0, 1, 5), (7, 8, 0, 1, 5)]
   \<and> calculate_incoming_capacity_for_restricted_nodes example_edges {4, 5, 7, 8} = [(4, 1), (5, 1)]
   \<and> calculate_outgoing_capacity_for_restricted_nodes example_edges {4, 5, 7, 8} = []
   \<and> calculate_virtual_flow
        (calculate_max_flow example_externals [(4, 5, 0, 1, 5), (7, 8, 0, 1, 5)] [(4, 1), (5, 1)] [])
        (U_limit restriction_A) = 0
   \<and> map_sum id ts_edges
        (apply_restriction example_externals 12 [restriction_A, restriction_B] example_controller)
     = Inr [(1, 4, 0, 1, 10), (2, 5, 0, 1, 10), (4, 7, 0, 1, 10), (5, 8, 0, 1, 10),
            (1, 2, 0, 1, 5), (3, 6, 0, 1, 10), (9, 12, 0, 1, 10), (6, 15, 0, 1, 10),
            (15, 16, 0, 1, 0), (16, 9, 0, 1, 0), (13, 15, 0, 1, 0),
            (16, 14, 0, 1, 0), (13, 14, 0, 1, 200)]
   \<and> map_sum id omega_store
        (apply_restriction example_externals 12 [restriction_A, restriction_B] example_controller)
     = Inr [(4, 5, 0, 1, 5), (7, 8, 0, 1, 5), (6, 9, 0, 1, 10)]
   \<and> (4, 5, 0, 1, 5) \<in> set (ts_edges example_controller)
   \<and> (7, 8, 0, 1, 5) \<in> set (ts_edges example_controller)"
  by (simp add: example_defs eval_defs)

theorem zero_flow_restriction_edges_removed_witness:
  "map_sum id (\<lambda>s. (4, 5, 0, 1, 5) \<in> set (ts_edges s) \<or> (7, 8, 0, 1, 5) \<in> set (ts_edges s))
     (apply_restriction example_externals 12 [restriction_A, restriction_B] example_controller)
   = Inr False"
proof -
  let ?a = "apply_restriction example_externals 12 [restriction_A, restriction_B] example_controller"
  from zero_flow_restriction_edges_removed
  have e: "map_sum id ts_edges ?a
     = Inr [(1, 4, 0, 1, 10), (2, 5, 0, 1, 10), (4, 7, 0, 1, 10), (5, 8, 0, 1, 10),
            (1, 2, 0, 1, 5), (3, 6, 0, 1, 10), (9, 12, 0, 1, 10), (6, 15, 0, 1, 10),
            (15, 16, 0, 1, 0), (16, 9, 0, 1, 0), (13, 15, 0, 1, 0),
            (16, 14, 0, 1, 0), (13, 14, 0, 1, 200)]"
    by blast
  show ?thesis
  proof (cases ?a)
    case (Inl x)
    with e show ?thesis by simp
  next
    case (Inr s')
    with e show ?thesis by simp
  qed
qed

subsection \<open>Penalty cost\<close>

lemma py_round_ge_floor: "\<lfloor>x\<rfloor> \<le> py_round x"
  by (simp add: py_round_def Let_def)

lemma default_gamma_floor: "mg \<le> calculate_default_gamma ext TSG prio k mg"
  by (simp add: calculate_default_gamma_def Let_def)

lemma costs_as_costed:
  "List.map_filter (\<lambda>(u, v, l, cap, cost). cost) (map as_costed E) = map edge_cost E"
  by (induction E) (auto simp: List.map_filter_simps as_costed_def edge_cost_def)

lemma default_gamma_on_graph:
  "E \<noteq> [] \<Longrightarrow>
   calculate_default_gamma ext (map as_costed E) prio k mg =
     max (float_mul ext (float_mul ext k (np_mean ext (map edge_cost E))) (max 1 prio)) mg"
  by (simp add: calculate_default_gamma_def costs_as_costed Let_def)

lemma rounded_floor:
  assumes "mg \<in> \<int>" "mg \<le> x"
  shows "mg \<le> real_of_int (py_round x)"
proof -
  from assms(1) obtain m where m: "mg = of_int m" by (auto elim: Ints_cases)
  have "m \<le> \<lfloor>x\<rfloor>" using assms(2) m by (simp add: le_floor_iff)
  also have "\<dots> \<le> py_round x" by (rule py_round_ge_floor)
  finally show ?thesis using m by simp
qed

lemma identify_nothing: "identify_restricted_edges M [] cfg st en = Inr []"
  by (simp add: identify_restricted_edges_def)

text \<open>
  Claim C8, amended. When no explicit gamma is supplied for a restriction that gets an
  escape edge, the gamma of that edge is \<open>max(k_factor * mean_cost * max(1.0, priority),
  min_gamma)\<close> rounded to the nearest integer, ties to even, where \<open>mean_cost\<close> is the
  mean cost over the edges of the full edge list and the products are the program's
  double products. \<open>calculate_default_gamma\<close> itself, on a non-empty edge list, is that
  maximum with the mean over the costed edges, and with \<open>10\<close> in its place when no edge
  is costed. It is at least \<open>min_gamma\<close> for every edge list, priority and k-factor, and
  so is the rounded gamma when \<open>min_gamma\<close> is an integer.
\<close>

theorem auto_gamma_floor:
  "(TSG \<noteq> [] \<and> List.map_filter (\<lambda>(u, v, l, cap, cost). cost) TSG \<noteq> [] \<longrightarrow>
      calculate_default_gamma ext TSG prio k mg =
        max (float_mul ext
               (float_mul ext k (np_mean ext (List.map_filter (\<lambda>(u, v, l, cap, cost). cost) TSG)))
               (max 1 prio)) mg)
   \<and> (TSG \<noteq> [] \<and> List.map_filter (\<lambda>(u, v, l, cap, cost). cost) TSG = [] \<longrightarrow>
      calculate_default_gamma ext TSG prio k mg =
        max (float_mul ext (float_mul ext k 10) (max 1 prio)) mg)
   \<and> mg \<le> calculate_default_gamma ext TSG prio k mg
   \<and> (identify_restricted_edges (gp_M s) (ts_edges s) (restriction_edges r)
          (fst (timeframe r)) (snd (timeframe r)) = Inr omega
       \<and> omega \<noteq> []
       \<and> 0 < calculate_virtual_flow
                (calculate_max_flow ext omega
                   (calculate_incoming_capacity_for_restricted_nodes (ts_edges s)
                      (identify_restricted_nodes omega))
                   (calculate_outgoing_capacity_for_restricted_nodes (ts_edges s)
                      (identify_restricted_nodes omega)))
                (U_limit r)
       \<and> gamma_config r = None \<longrightarrow>
        (\<exists>c' s'. process_restriction ext r (c, s) = Inr (c', s')
           \<and> edge_cost (last (all_additional_edges s')) =
               py_round (max (float_mul ext
                                (float_mul ext (k_val r) (np_mean ext (map edge_cost (ts_edges s))))
                                (max 1 (priority r)))
                             (min_gamma s))
           \<and> (min_gamma s \<in> \<int> \<longrightarrow>
                 min_gamma s \<le> real_of_int (edge_cost (last (all_additional_edges s'))))))"
proof -
  have prog: "\<exists>c' s'. process_restriction ext r (c, s) = Inr (c', s')
           \<and> edge_cost (last (all_additional_edges s')) =
               py_round (max (float_mul ext
                                (float_mul ext (k_val r) (np_mean ext (map edge_cost (ts_edges s))))
                                (max 1 (priority r)))
                             (min_gamma s))
           \<and> (min_gamma s \<in> \<int> \<longrightarrow>
                 min_gamma s \<le> real_of_int (edge_cost (last (all_additional_edges s'))))"
    if om: "identify_restricted_edges (gp_M s) (ts_edges s) (restriction_edges r)
          (fst (timeframe r)) (snd (timeframe r)) = Inr omega"
      and ne: "omega \<noteq> []"
      and pos: "0 < calculate_virtual_flow
                (calculate_max_flow ext omega
                   (calculate_incoming_capacity_for_restricted_nodes (ts_edges s)
                      (identify_restricted_nodes omega))
                   (calculate_outgoing_capacity_for_restricted_nodes (ts_edges s)
                      (identify_restricted_nodes omega)))
                (U_limit r)"
      and g: "gamma_config r = None"
  proof -
    let ?vf = "calculate_virtual_flow
                (calculate_max_flow ext omega
                   (calculate_incoming_capacity_for_restricted_nodes (ts_edges s)
                      (identify_restricted_nodes omega))
                   (calculate_outgoing_capacity_for_restricted_nodes (ts_edges s)
                      (identify_restricted_nodes omega)))
                (U_limit r)"
    let ?s1 = "s\<lparr>omega_store := omega_store s @ omega\<rparr>"
    let ?b = "build_escape_topology ext r omega ?vf (c, ?s1)"
    let ?x = "max (float_mul ext
                     (float_mul ext (k_val r) (np_mean ext (map edge_cost (ts_edges s))))
                     (max 1 (priority r)))
                  (min_gamma s)"
    have E: "ts_edges s \<noteq> []"
      using om ne identify_nothing [of "gp_M s"] by auto
    have p: "process_restriction ext r (c, s) = Inr (fst ?b, snd ?b)"
      using om ne pos by (simp add: process_restriction_def Let_def)
    have gam: "resolve_final_gamma ext s r = py_round ?x"
      using g default_gamma_on_graph [OF E] by (simp add: resolve_final_gamma_def)
    have cost: "edge_cost (last (all_additional_edges (snd ?b))) = py_round ?x"
      using gam by (simp add: build_edges edge_cost_def)
    have "min_gamma s \<le> real_of_int (py_round ?x)" if "min_gamma s \<in> \<int>"
      using that by (rule rounded_floor) simp
    with cost have fl: "min_gamma s \<in> \<int> \<longrightarrow>
        min_gamma s \<le> real_of_int (edge_cost (last (all_additional_edges (snd ?b))))"
      by simp
    from p cost fl show ?thesis by blast
  qed
  have 1: "calculate_default_gamma ext TSG prio k mg =
        max (float_mul ext
               (float_mul ext k (np_mean ext (List.map_filter (\<lambda>(u, v, l, cap, cost). cost) TSG)))
               (max 1 prio)) mg"
    if "TSG \<noteq> []" "List.map_filter (\<lambda>(u, v, l, cap, cost). cost) TSG \<noteq> []"
    using that by (simp add: calculate_default_gamma_def Let_def)
  have 2: "calculate_default_gamma ext TSG prio k mg =
        max (float_mul ext (float_mul ext k 10) (max 1 prio)) mg"
    if "TSG \<noteq> []" "List.map_filter (\<lambda>(u, v, l, cap, cost). cost) TSG = []"
    using that by (simp add: calculate_default_gamma_def Let_def)
  from 1 2 prog default_gamma_floor [of mg ext TSG prio k] show ?thesis by blast
qed

theorem auto_gamma_floor_witness:
  "identify_restricted_edges (gp_M example_controller) (ts_edges example_controller)
     (restriction_edges restriction_C) (fst (timeframe restriction_C))
     (snd (timeframe restriction_C)) = Inr [(6, 9, 0, 1, 10)]
   \<and> gamma_config restriction_C = None
   \<and> min_gamma example_controller \<in> \<int>
   \<and> map as_costed example_edges \<noteq> []
   \<and> List.map_filter (\<lambda>(u, v, l, cap, cost). cost) (map as_costed example_edges) \<noteq> []
   \<and> calculate_default_gamma example_externals (map as_costed example_edges) 1 25 200 = 425 / 2
   \<and> (\<exists>c' s'. process_restriction example_externals restriction_C (12, example_controller)
                  = Inr (c', s')
          \<and> edge_cost (last (all_additional_edges s')) = 212
          \<and> min_gamma example_controller
              \<le> real_of_int (edge_cost (last (all_additional_edges s'))))"
proof -
  have om: "identify_restricted_edges (gp_M example_controller) (ts_edges example_controller)
     (restriction_edges restriction_C) (fst (timeframe restriction_C))
     (snd (timeframe restriction_C)) = Inr [(6, 9, 0, 1, 10)]"
    by (simp add: example_defs eval_defs)
  have ne: "[(6, 9, 0, 1, 10)] \<noteq> ([] :: edge list)" by simp
  have pos: "0 < calculate_virtual_flow
                (calculate_max_flow example_externals [(6, 9, 0, 1, 10)]
                   (calculate_incoming_capacity_for_restricted_nodes (ts_edges example_controller)
                      (identify_restricted_nodes [(6, 9, 0, 1, 10)]))
                   (calculate_outgoing_capacity_for_restricted_nodes (ts_edges example_controller)
                      (identify_restricted_nodes [(6, 9, 0, 1, 10)])))
                (U_limit restriction_C)"
    by (simp add: example_defs eval_defs)
  have g: "gamma_config restriction_C = None" by (simp add: restriction_C_def)
  have z: "min_gamma example_controller \<in> \<int>" by (simp add: example_defs)
  have t: "map as_costed example_edges \<noteq> []"
    "List.map_filter (\<lambda>(u, v, l, cap, cost). cost) (map as_costed example_edges) \<noteq> []"
    by (simp_all add: example_edges_def as_costed_def List.map_filter_simps)
  have x: "max (float_mul example_externals
                  (float_mul example_externals (k_val restriction_C)
                     (np_mean example_externals (map edge_cost (ts_edges example_controller))))
                  (max 1 (priority restriction_C)))
               (min_gamma example_controller) = 425 / 2"
    by (simp add: example_defs edge_cost_def)
  have r: "py_round (425 / 2) = 212" by (simp add: py_round_def Let_def)
  note inst = auto_gamma_floor [where ext = example_externals
      and TSG = "map as_costed example_edges" and prio = 1 and k = 25 and mg = 200
      and s = example_controller and r = restriction_C and omega = "[(6, 9, 0, 1, 10)]"
      and c = 12]
  from inst t have d: "calculate_default_gamma example_externals (map as_costed example_edges)
      1 25 200 = max (float_mul example_externals
               (float_mul example_externals 25
                  (np_mean example_externals
                     (List.map_filter (\<lambda>(u, v, l, cap, cost). cost)
                        (map as_costed example_edges))))
               (max 1 1)) 200"
    by blast
  have d': "calculate_default_gamma example_externals (map as_costed example_edges) 1 25 200
      = 425 / 2"
    unfolding d
    by (simp add: example_defs as_costed_def List.map_filter_simps)
  from inst om ne pos g obtain c' s' where
    p: "process_restriction example_externals restriction_C (12, example_controller) = Inr (c', s')"
    and e: "edge_cost (last (all_additional_edges s')) =
               py_round (max (float_mul example_externals
                  (float_mul example_externals (k_val restriction_C)
                     (np_mean example_externals (map edge_cost (ts_edges example_controller))))
                  (max 1 (priority restriction_C)))
               (min_gamma example_controller))"
    and f: "min_gamma example_controller \<in> \<int> \<longrightarrow>
         min_gamma example_controller \<le> real_of_int (edge_cost (last (all_additional_edges s')))"
    by blast
  from e have e': "edge_cost (last (all_additional_edges s')) = 212"
    unfolding x r .
  from om g z t d' p e' f show ?thesis by blast
qed

text \<open>
  The claim as written leaves the rounding out. In the worked graph the ten costs
  have mean \<open>8.5\<close>; restriction C, with \<open>k = 25\<close>, priority \<open>1\<close> and no explicit gamma,
  has omega \<open>(6, 9, 0, 1, 10)\<close> and virtual flow \<open>1\<close>, so apply gives it an escape edge.
  The formula is \<open>max(25 * 8.5 * 1, 200) = 212.5\<close>; the escape edge carries \<open>212\<close>.
\<close>

theorem auto_gamma_counterexample:
  "map_sum id (\<lambda>s. real_of_int (edge_cost (last (all_additional_edges s))))
     (apply_restriction example_externals 12 [restriction_C] example_controller)
     = Inr 212
   \<and> max (k_val restriction_C
           * (real_of_int (sum_list (map edge_cost (ts_edges example_controller)))
                / real (length (ts_edges example_controller)))
           * max 1 (priority restriction_C))
         (min_gamma example_controller)
     = 425 / 2
   \<and> map_sum id (\<lambda>s. real_of_int (edge_cost (last (all_additional_edges s))))
       (apply_restriction example_externals 12 [restriction_C] example_controller)
     \<noteq> Inr (max (k_val restriction_C
                    * (real_of_int (sum_list (map edge_cost (ts_edges example_controller)))
                         / real (length (ts_edges example_controller)))
                    * max 1 (priority restriction_C))
                  (min_gamma example_controller))
   \<and> gamma_config restriction_C = None"
  by (simp add: example_defs eval_defs calculate_default_gamma_def as_costed_def
      List.map_filter_simps edge_cost_def)

subsection \<open>Violation detection\<close>

lemma analyze_loop_closed:
  "analyze_loop fd es acc =
     acc @ map (mk_violation fd) (filter (\<lambda>e. 0 < escape_flow_value fd e) es)"
  by (induction es arbitrary: acc) (simp_all add: Let_def mk_violation_def)

text \<open>
  Claim C5. The violations reported for a list of escape edges and a flow assignment
  are, in order, those of the escape edges whose flow is strictly positive, each with
  that flow, the edge's gamma and \<open>penalty_cost = flow * gamma_cost\<close>; an edge whose
  source or destination is missing from the assignment has flow \<open>0\<close>. In particular
  an escape edge with flow \<open>2\<close> and gamma \<open>200\<close> gives exactly one violation with penalty
  \<open>400\<close>.
\<close>

theorem violations_are_positive_escape_flows:
  "analyze_escape_edge_flow escape_edges fd =
     map (\<lambda>e. \<lparr>viol_source = ee_source e, viol_dest = ee_dest e,
                viol_flow = escape_flow_value fd e, viol_gamma_cost = ee_cost e,
                viol_penalty_cost = escape_flow_value fd e * ee_cost e\<rparr>)
       (filter (\<lambda>e. 0 < escape_flow_value fd e) escape_edges)
   \<and> (\<forall>e. fd (str_int (ee_source e)) = None \<longrightarrow> escape_flow_value fd e = 0)
   \<and> (\<forall>e sub. fd (str_int (ee_source e)) = Some sub \<and> sub (str_int (ee_dest e)) = None
         \<longrightarrow> escape_flow_value fd e = 0)
   \<and> (\<forall>e sub f. fd (str_int (ee_source e)) = Some sub \<and> sub (str_int (ee_dest e)) = Some f
         \<longrightarrow> escape_flow_value fd e = f)
   \<and> analyze_escape_edge_flow
        [\<lparr>ee_source = 101, ee_dest = 102, ee_cost = 200, ee_line = 1\<rparr>]
        [''101'' \<mapsto> [''102'' \<mapsto> 2]]
      = [\<lparr>viol_source = 101, viol_dest = 102, viol_flow = 2, viol_gamma_cost = 200,
          viol_penalty_cost = 400\<rparr>]"
proof -
  have 1: "analyze_escape_edge_flow escape_edges fd =
     map (mk_violation fd) (filter (\<lambda>e. 0 < escape_flow_value fd e) escape_edges)"
    by (simp add: analyze_escape_edge_flow_def analyze_loop_closed)
  have 2: "analyze_escape_edge_flow
        [\<lparr>ee_source = 101, ee_dest = 102, ee_cost = 200, ee_line = 1\<rparr>]
        [''101'' \<mapsto> [''102'' \<mapsto> 2]]
      = [\<lparr>viol_source = 101, viol_dest = 102, viol_flow = 2, viol_gamma_cost = 200,
          viol_penalty_cost = 400\<rparr>]"
    by (simp add: analyze_escape_edge_flow_def escape_flow_value_def str_int_def str_nat.simps
        digit_char_def Let_def)
  show ?thesis
    unfolding 1 2 by (simp add: mk_violation_def [abs_def] escape_flow_value_def Let_def)
qed

theorem violations_are_positive_escape_flows_witness:
  "[''101'' \<mapsto> [''102'' \<mapsto> (2::int)]] (str_int 103) = None
   \<and> escape_flow_value [''101'' \<mapsto> [''102'' \<mapsto> 2]]
        \<lparr>ee_source = 103, ee_dest = 104, ee_cost = 200, ee_line = 2\<rparr> = 0
   \<and> analyze_escape_edge_flow
        [\<lparr>ee_source = 101, ee_dest = 102, ee_cost = 200, ee_line = 1\<rparr>,
         \<lparr>ee_source = 103, ee_dest = 104, ee_cost = 200, ee_line = 2\<rparr>]
        [''101'' \<mapsto> [''102'' \<mapsto> 2]]
      = [\<lparr>viol_source = 101, viol_dest = 102, viol_flow = 2, viol_gamma_cost = 200,
          viol_penalty_cost = 400\<rparr>]"
proof -
  let ?fd = "[''101'' \<mapsto> [''102'' \<mapsto> (2::int)]]"
  let ?e2 = "\<lparr>ee_source = 103, ee_dest = 104, ee_cost = 200, ee_line = 2\<rparr>"
  have n: "?fd (str_int (ee_source ?e2)) = None"
    by (simp add: str_int_def str_nat.simps digit_char_def)
  have f: "escape_flow_value ?fd \<lparr>ee_source = 101, ee_dest = 102, ee_cost = 200, ee_line = 1\<rparr> = 2"
    by (simp add: escape_flow_value_def str_int_def str_nat.simps digit_char_def Let_def)
  from violations_are_positive_escape_flows
    [of "[\<lparr>ee_source = 101, ee_dest = 102, ee_cost = 200, ee_line = 1\<rparr>, ?e2]" ?fd]
  have a: "analyze_escape_edge_flow
        [\<lparr>ee_source = 101, ee_dest = 102, ee_cost = 200, ee_line = 1\<rparr>, ?e2] ?fd
      = map (\<lambda>e. \<lparr>viol_source = ee_source e, viol_dest = ee_dest e,
                viol_flow = escape_flow_value ?fd e, viol_gamma_cost = ee_cost e,
                viol_penalty_cost = escape_flow_value ?fd e * ee_cost e\<rparr>)
       (filter (\<lambda>e. 0 < escape_flow_value ?fd e)
          [\<lparr>ee_source = 101, ee_dest = 102, ee_cost = 200, ee_line = 1\<rparr>, ?e2])"
    and z: "\<forall>e. ?fd (str_int (ee_source e)) = None \<longrightarrow> escape_flow_value ?fd e = 0"
    by blast+
  from z n have z2: "escape_flow_value ?fd ?e2 = 0" by blast
  from a f z2 n show ?thesis by simp
qed

end
